theory Spec2Isabelle
  imports Complex_Main "HOL-Library.AList"
begin

section \<open>JavaScript values used by the monitor\<close>

text \<open>
  A JavaScript number is modelled as an exact rational, \<open>NaN\<close>, or one of the two
  infinities. The rounding of IEEE doubles and the sign of zero are outside the model.
  A property that may be absent from an object is an \<open>option\<close>: \<open>None\<close> is
  \<open>undefined\<close>.
\<close>

datatype jsnum = Num rat | NaN | PosInf | NegInf

text \<open>\<open>ToNumber\<close>: \<open>undefined\<close> converts to \<open>NaN\<close>.\<close>

fun toNumber :: "jsnum option \<Rightarrow> jsnum" where
  "toNumber None = NaN"
| "toNumber (Some n) = n"

text \<open>The operator \<open>+\<close> on numbers.\<close>

fun js_add :: "jsnum \<Rightarrow> jsnum \<Rightarrow> jsnum" where
  "js_add (Num a) (Num b) = Num (a + b)"
| "js_add NaN _ = NaN"
| "js_add _ NaN = NaN"
| "js_add PosInf NegInf = NaN"
| "js_add NegInf PosInf = NaN"
| "js_add PosInf _ = PosInf"
| "js_add _ PosInf = PosInf"
| "js_add NegInf _ = NegInf"
| "js_add _ NegInf = NegInf"

text \<open>The operator \<open>/\<close>: \<open>0 / 0\<close> is \<open>NaN\<close>, \<open>x / 0\<close> is an infinity.\<close>

fun js_div :: "jsnum \<Rightarrow> jsnum \<Rightarrow> jsnum" where
  "js_div (Num a) (Num b) =
     (if b = 0 then (if a = 0 then NaN else if 0 < a then PosInf else NegInf)
      else Num (a / b))"
| "js_div NaN _ = NaN"
| "js_div _ NaN = NaN"
| "js_div (Num a) _ = Num 0"
| "js_div PosInf (Num b) = (if b < 0 then NegInf else PosInf)"
| "js_div NegInf (Num b) = (if b < 0 then PosInf else NegInf)"
| "js_div _ _ = NaN"

text \<open>The operator \<open>>\<close>: every comparison with \<open>NaN\<close> is false.\<close>

fun js_gt :: "jsnum \<Rightarrow> jsnum \<Rightarrow> bool" where
  "js_gt (Num a) (Num b) = (b < a)"
| "js_gt NaN _ = False"
| "js_gt _ NaN = False"
| "js_gt PosInf PosInf = False"
| "js_gt PosInf _ = True"
| "js_gt NegInf _ = False"
| "js_gt _ NegInf = True"
| "js_gt _ PosInf = False"

text \<open>\<open>x || 0\<close> on a number: \<open>NaN\<close> and \<open>0\<close> are falsy.\<close>

fun js_or0 :: "jsnum \<Rightarrow> jsnum" where
  "js_or0 NaN = Num 0"
| "js_or0 n = n"

text \<open>\<open>x++\<close> on a property that may be absent.\<close>

definition js_inc :: "jsnum option \<Rightarrow> jsnum option" where
  "js_inc x = Some (js_add (toNumber x) (Num 1))"

text \<open>
  \<open>Array.prototype.slice(start, end)\<close> on integral arguments; \<open>end = None\<close> is the
  call with one argument.
\<close>

definition js_slice :: "'a list \<Rightarrow> int \<Rightarrow> int option \<Rightarrow> 'a list" where
  "js_slice xs start end =
     (let len = int (length xs);
          k = (if start < 0 then max (len + start) 0 else min start len);
          e = (case end of None \<Rightarrow> len | Some e \<Rightarrow> e);
          final = (if e < 0 then max (len + e) 0 else min e len)
      in take (nat (final - k)) (drop (nat k) xs))"

section \<open>Data of the monitor (src/monitor/setup.js)\<close>

text \<open>
  Timestamps: \<open>new Date().toISOString()\<close> is modelled by the instant it denotes, in
  milliseconds since the epoch; the instant is a parameter \<open>now\<close> of every function
  that reads the clock.
\<close>

type_synonym instant = int

text \<open>A job as the backend hands it to a listener; every property may be absent.\<close>

record job =
  job_id :: "string option"
  job_name :: "string option"
  job_processedOn :: "int option"
  job_timestamp :: "int option"

text \<open>
  The message of an \<open>Error\<close>: a text from the backend, or one of the template
  strings of the periodic checks. A template is kept with the values it is built from.
  The digits that \<open>Math.round\<close> prints for an average or for a percentage are the
  rounding of a double and are not computed here: \<open>SlowProcessing\<close> holds
  \<open>metrics.avgProcessingTime\<close>, \<open>HighFailureRate\<close> holds \<open>metrics.failed\<close> and
  \<open>totalJobs\<close>.
\<close>

datatype message =
    Text string
  | HighFailureCount nat          \<comment> \<open>\<open>High failure rate: ${status.failed} failed jobs\<close>\<close>
  | QueueBacklog nat              \<comment> \<open>\<open>Queue backlog: ${status.waiting} waiting jobs\<close>\<close>
  | QueuePaused                   \<comment> \<open>\<open>Queue is paused\<close>\<close>
  | SlowProcessing jsnum          \<comment> \<open>\<open>Slow processing: ${Math.round(avg)}ms average\<close>\<close>
  | HighFailureRate jsnum jsnum   \<comment> \<open>\<open>High failure rate: ${Math.round((failed / totalJobs) * 100)}%\<close>\<close>

datatype jserror = Error (err_message: message)

record queue_event =
  ev_queueName :: string
  ev_event :: string
  ev_timestamp :: instant
  ev_jobId :: "string option"
  ev_jobName :: "string option"
  ev_error :: "message option"

text \<open>The seven properties \<open>updateQueueStatus\<close> writes together.\<close>

record queue_counts =
  waiting :: nat
  active :: nat
  completed :: nat
  failed :: nat
  delayed :: nat
  paused :: bool
  lastUpdated :: instant

text \<open>
  An entry of \<open>monitoringData.queues\<close>: the counts are absent in an object that
  \<open>addMonitoringEvent\<close> created, \<open>events\<close> is absent in an object that
  \<open>updateQueueStatus\<close> wrote.
\<close>

record queue_status =
  qs_counts :: "queue_counts option"
  qs_events :: "queue_event list option"

text \<open>
  An entry of \<open>monitoringData.performance\<close>: the per-queue metrics have the first five
  properties, the entry stored under the key \<open>system\<close> has \<open>totalJobs\<close>,
  \<open>avgProcessingTime\<close> and \<open>timestamp\<close>.
\<close>

record perf_entry =
  pm_completed :: "jsnum option"
  pm_failed :: "jsnum option"
  pm_avgProcessingTime :: "jsnum option"
  pm_totalProcessingTime :: "jsnum option"
  pm_jobCount :: "jsnum option"
  pm_totalJobs :: "jsnum option"
  pm_timestamp :: "instant option"

record alert =
  al_queueName :: string
  al_event :: string
  al_error :: "message option"
  al_timestamp :: instant
  al_severity :: string

text \<open>
  \<open>monitoringData\<close>. An object with string keys is an association list in insertion
  order (\<open>Object.values\<close> and \<open>Object.entries\<close> enumerate in that order; no key of
  this program is an array index or the name of a property of \<open>Object.prototype\<close>); a
  key is stored with \<open>AList.update\<close>, which overwrites in place or appends.
  \<open>workers\<close> is never read or written.
\<close>

record monitoring_data =
  queues :: "(string \<times> queue_status) list"
  performance :: "(string \<times> perf_entry) list"
  alerts :: "alert list"

definition init_monitoringData :: monitoring_data where
  "init_monitoringData = \<lparr>queues = [], performance = [], alerts = []\<rparr>"

section \<open>Operations of the monitor\<close>

text \<open>\<open>updateQueueStatus\<close>, after the backend has answered: the whole entry is replaced.\<close>

record backend_status =
  bs_waiting :: nat
  bs_active :: nat
  bs_completed :: nat
  bs_failed :: nat
  bs_delayed :: nat
  bs_paused :: bool

text \<open>
  \<open>fetched = None\<close>: one of the six backend queries was rejected; the error is caught
  and logged, the state stays as it is.
\<close>

definition updateQueueStatus ::
  "monitoring_data \<Rightarrow> string \<Rightarrow> backend_status option \<Rightarrow> instant \<Rightarrow> monitoring_data" where
  "updateQueueStatus s queueName fetched now =
     (case fetched of
        None \<Rightarrow> s
      | Some b \<Rightarrow>
          s\<lparr>queues := AList.update queueName
               \<lparr>qs_counts = Some \<lparr>waiting = bs_waiting b, active = bs_active b,
                                   completed = bs_completed b, failed = bs_failed b,
                                   delayed = bs_delayed b, paused = bs_paused b,
                                   lastUpdated = now\<rparr>,
                qs_events = None\<rparr>
               (queues s)\<rparr>)"

definition addMonitoringEvent ::
  "monitoring_data \<Rightarrow> string \<Rightarrow> string \<Rightarrow> job option \<Rightarrow> jserror option \<Rightarrow> instant
     \<Rightarrow> monitoring_data" where
  "addMonitoringEvent s queueName event job error now =
     (let eventData = \<lparr>ev_queueName = queueName, ev_event = event, ev_timestamp = now,
                        ev_jobId = Option.bind job job_id,
                        ev_jobName = Option.bind job job_name,
                        ev_error = map_option err_message error\<rparr>;
          entry = (case map_of (queues s) queueName of
                     None \<Rightarrow> \<lparr>qs_counts = None, qs_events = None\<rparr>
                   | Some q \<Rightarrow> q);
          evs = (case qs_events entry of None \<Rightarrow> [] | Some es \<Rightarrow> es);
          pushed = evs @ [eventData];
          kept = (if length pushed > 100 then js_slice pushed (- 100) None else pushed)
      in s\<lparr>queues := AList.update queueName (entry\<lparr>qs_events := Some kept\<rparr>) (queues s)\<rparr>)"

text \<open>\<open>job.processedOn && job.timestamp\<close>: absent and \<open>0\<close> are falsy.\<close>

fun truthy :: "int option \<Rightarrow> bool" where
  "truthy None = False"
| "truthy (Some n) = (n \<noteq> 0)"

text \<open>\<open>job.processedOn - job.timestamp\<close>; an absent operand gives \<open>NaN\<close>.\<close>

fun js_sub_int :: "int option \<Rightarrow> int option \<Rightarrow> jsnum" where
  "js_sub_int (Some p) (Some t) = Num (of_int (p - t))"
| "js_sub_int _ _ = NaN"

definition new_metrics :: perf_entry where
  "new_metrics = \<lparr>pm_completed = Some (Num 0), pm_failed = Some (Num 0),
                  pm_avgProcessingTime = Some (Num 0), pm_totalProcessingTime = Some (Num 0),
                  pm_jobCount = Some (Num 0), pm_totalJobs = None, pm_timestamp = None\<rparr>"

text \<open>
  \<open>updatePerformanceMetrics\<close>. The listener of \<open>completed\<close> passes the job it was
  given and the function reads \<open>job.processedOn\<close> without a test, so the job is not
  optional here.
\<close>

definition updatePerformanceMetrics ::
  "monitoring_data \<Rightarrow> string \<Rightarrow> string \<Rightarrow> job \<Rightarrow> monitoring_data" where
  "updatePerformanceMetrics s queueName event job =
     (let metrics = (case map_of (performance s) queueName of
                       None \<Rightarrow> new_metrics
                     | Some m \<Rightarrow> m);
          metrics' =
            (if event = ''completed'' then
               (let m1 = metrics\<lparr>pm_completed := js_inc (pm_completed metrics)\<rparr> in
                if truthy (job_processedOn job) \<and> truthy (job_timestamp job) then
                  (let processingTime = js_sub_int (job_processedOn job) (job_timestamp job);
                       m2 = m1\<lparr>pm_totalProcessingTime :=
                                 Some (js_add (toNumber (pm_totalProcessingTime m1)) processingTime)\<rparr>;
                       m3 = m2\<lparr>pm_jobCount := js_inc (pm_jobCount m2)\<rparr>
                   in m3\<lparr>pm_avgProcessingTime :=
                           Some (js_div (toNumber (pm_totalProcessingTime m3))
                                        (toNumber (pm_jobCount m3)))\<rparr>)
                else m1)
             else if event = ''failed'' then metrics\<lparr>pm_failed := js_inc (pm_failed metrics)\<rparr>
             else metrics)
      in s\<lparr>performance := AList.update queueName metrics' (performance s)\<rparr>)"

text \<open>
  \<open>checkForAlerts\<close>. An \<open>Error\<close> object is truthy whatever its message, so
  \<open>event === 'failed' && error\<close> tests that an error was passed. The line written to
  the console for a critical alert is not part of the state.
\<close>

definition severity_of :: "string \<Rightarrow> jserror option \<Rightarrow> string" where
  "severity_of event error =
     (if event = ''failed'' \<and> error \<noteq> None then ''error''
      else if event = ''stalled'' then ''warning''
      else if event = ''error'' then ''critical''
      else ''warning'')"

definition checkForAlerts ::
  "monitoring_data \<Rightarrow> string \<Rightarrow> string \<Rightarrow> jserror option \<Rightarrow> instant \<Rightarrow> monitoring_data" where
  "checkForAlerts s queueName event error now =
     (let alert = \<lparr>al_queueName = queueName, al_event = event,
                    al_error = map_option err_message error, al_timestamp = now,
                    al_severity = severity_of event error\<rparr>;
          pushed = alerts s @ [alert]
      in s\<lparr>alerts := (if length pushed > 50 then js_slice pushed (- 50) None else pushed)\<rparr>)"

text \<open>
  \<open>checkQueueHealth\<close>: the body of the \<open>forEach\<close> for one entry, then the loop.
  In an entry without counts \<open>status.failed > 10\<close> and \<open>status.waiting > 100\<close>
  compare \<open>undefined\<close> and \<open>status.paused\<close> is falsy: no branch is taken.
\<close>

definition checkQueueHealth_entry ::
  "instant \<Rightarrow> monitoring_data \<Rightarrow> string \<times> queue_status \<Rightarrow> monitoring_data" where
  "checkQueueHealth_entry now s entry =
     (case entry of (queueName, status) \<Rightarrow>
        (case qs_counts status of
           None \<Rightarrow> s
         | Some c \<Rightarrow>
             (let s1 = (if failed c > 10
                        then checkForAlerts s queueName ''high-failure-rate''
                               (Some (Error (HighFailureCount (failed c)))) now
                        else s);
                  s2 = (if waiting c > 100
                        then checkForAlerts s1 queueName ''queue-backlog''
                               (Some (Error (QueueBacklog (waiting c)))) now
                        else s1)
              in if paused c
                 then checkForAlerts s2 queueName ''queue-paused'' (Some (Error QueuePaused)) now
                 else s2)))"

definition checkQueueHealth :: "monitoring_data \<Rightarrow> instant \<Rightarrow> monitoring_data" where
  "checkQueueHealth s now = foldl (checkQueueHealth_entry now) s (queues s)"

text \<open>\<open>checkPerformanceAlerts\<close>: the body of the \<open>forEach\<close> for one entry, then the loop.\<close>

definition checkPerformanceAlerts_entry ::
  "instant \<Rightarrow> monitoring_data \<Rightarrow> string \<times> perf_entry \<Rightarrow> monitoring_data" where
  "checkPerformanceAlerts_entry now s entry =
     (case entry of (queueName, metrics) \<Rightarrow>
        (let s1 = (if js_gt (toNumber (pm_avgProcessingTime metrics)) (Num 30000)
                   then checkForAlerts s queueName ''slow-processing''
                          (Some (Error (SlowProcessing
                             (toNumber (pm_avgProcessingTime metrics))))) now
                   else s);
             totalJobs = js_add (toNumber (pm_completed metrics)) (toNumber (pm_failed metrics))
         in if js_gt totalJobs (Num 0)
               \<and> js_gt (js_div (toNumber (pm_failed metrics)) totalJobs) (Num (1 / 5))
            then checkForAlerts s1 queueName ''high-failure-rate''
                   (Some (Error (HighFailureRate (toNumber (pm_failed metrics)) totalJobs))) now
            else s1))"

definition checkPerformanceAlerts :: "monitoring_data \<Rightarrow> instant \<Rightarrow> monitoring_data" where
  "checkPerformanceAlerts s now = foldl (checkPerformanceAlerts_entry now) s (performance s)"

text \<open>The callback of \<open>startAlertSystem\<close>, run every 10 seconds.\<close>

definition startAlertSystem :: "monitoring_data \<Rightarrow> instant \<Rightarrow> monitoring_data" where
  "startAlertSystem s now = checkPerformanceAlerts (checkQueueHealth s now) now"

text \<open>
  The callback of \<open>startPerformanceMonitoring\<close>, run every 60 seconds. Both
  \<open>reduce\<close> calls run over \<open>Object.values(monitoringData.performance)\<close>, the
  divisor is \<open>Object.keys(monitoringData.performance).length\<close>, and the result is
  stored in the same object under the key \<open>system\<close>.
\<close>

definition startPerformanceMonitoring :: "monitoring_data \<Rightarrow> instant \<Rightarrow> monitoring_data" where
  "startPerformanceMonitoring s now =
     (let totalJobs =
            foldl (\<lambda>sum metrics.
                     js_add (js_add sum (toNumber (pm_completed metrics)))
                            (toNumber (pm_failed metrics)))
                  (Num 0) (map snd (performance s));
          avgProcessingTime =
            js_or0 (js_div
                      (foldl (\<lambda>sum metrics. js_add sum (toNumber (pm_avgProcessingTime metrics)))
                             (Num 0) (map snd (performance s)))
                      (Num (of_nat (length (map fst (performance s))))))
      in s\<lparr>performance := AList.update ''system''
              \<lparr>pm_completed = None, pm_failed = None,
               pm_avgProcessingTime = Some avgProcessingTime,
               pm_totalProcessingTime = None, pm_jobCount = None,
               pm_totalJobs = Some totalJobs, pm_timestamp = Some now\<rparr>
              (performance s)\<rparr>)"

text \<open>The accessors. An object is truthy, so \<open>x || null\<close> is \<open>null\<close> for an absent key only.\<close>

definition getQueueStatus :: "monitoring_data \<Rightarrow> string \<Rightarrow> queue_status option" where
  "getQueueStatus s queueName = map_of (queues s) queueName"

definition getPerformanceMetrics :: "monitoring_data \<Rightarrow> string \<Rightarrow> perf_entry option" where
  "getPerformanceMetrics s queueName = map_of (performance s) queueName"

definition clearAlerts :: "monitoring_data \<Rightarrow> monitoring_data" where
  "clearAlerts s = s\<lparr>alerts := []\<rparr>"

text \<open>\<open>status.waiting\<close>, \<open>status.active\<close>, \<open>status.failed\<close> of an entry of \<open>queues\<close>.\<close>

definition status_prop :: "(queue_counts \<Rightarrow> nat) \<Rightarrow> queue_status \<Rightarrow> jsnum option" where
  "status_prop f status = map_option (\<lambda>c. Num (of_nat (f c))) (qs_counts status)"

record system_health =
  sh_status :: string
  sh_queues :: nat
  sh_totalWaiting :: jsnum
  sh_totalActive :: jsnum
  sh_totalFailed :: jsnum
  sh_criticalAlerts :: nat
  sh_timestamp :: instant

definition getSystemHealth :: "monitoring_data \<Rightarrow> instant \<Rightarrow> system_health" where
  "getSystemHealth s now =
     (let totalWaiting =
            foldl (\<lambda>sum status. js_add sum (toNumber (status_prop waiting status)))
                  (Num 0) (map snd (queues s));
          totalActive =
            foldl (\<lambda>sum status. js_add sum (toNumber (status_prop active status)))
                  (Num 0) (map snd (queues s));
          totalFailed =
            foldl (\<lambda>sum status. js_add sum (toNumber (status_prop failed status)))
                  (Num 0) (map snd (queues s));
          criticalAlerts = length (filter (\<lambda>alert. al_severity alert = ''critical'') (alerts s))
      in \<lparr>sh_status = (if criticalAlerts > 0 then ''critical''
                        else if js_gt totalFailed (Num 10) then ''warning''
                        else ''healthy''),
          sh_queues = length (map fst (queues s)),
          sh_totalWaiting = totalWaiting,
          sh_totalActive = totalActive,
          sh_totalFailed = totalFailed,
          sh_criticalAlerts = criticalAlerts,
          sh_timestamp = now\<rparr>)"

section \<open>The events route (\<open>router.get('/events')\<close>, the router that follows the monitor in src/monitor/setup.js)\<close>

text \<open>
  \<open>limit\<close> is the value of \<open>parseInt(limit)\<close>: an integer, or \<open>None\<close> for
  \<open>NaN\<close>, which \<open>slice\<close> reads as \<open>0\<close>. \<open>queueName\<close> is the query parameter:
  absent and the empty string are falsy. The result is the pair of \<open>events\<close> and
  \<open>total\<close> of the response. \<open>Array.prototype.sort\<close> is stable; with the comparator
  \<open>new Date(b.timestamp) - new Date(a.timestamp)\<close> it is the stable sort on the
  negated instant.
\<close>

definition events_route ::
  "monitoring_data \<Rightarrow> string option \<Rightarrow> int option \<Rightarrow> queue_event list \<times> nat" where
  "events_route s queueName limit =
     (if queueName \<noteq> None \<and> queueName \<noteq> Some []
      then
        (let queueEvents =
               (case map_of (queues s) (case queueName of Some q \<Rightarrow> q | None \<Rightarrow> []) of
                  None \<Rightarrow> []
                | Some status \<Rightarrow> (case qs_events status of None \<Rightarrow> [] | Some es \<Rightarrow> es))
         in (js_slice queueEvents (case limit of None \<Rightarrow> 0 | Some l \<Rightarrow> - l) None,
             length queueEvents))
      else
        (let allEvents =
               concat (map (\<lambda>(name, queueData).
                              case qs_events queueData of
                                None \<Rightarrow> []
                              | Some es \<Rightarrow> map (\<lambda>event. event\<lparr>ev_queueName := name\<rparr>) es)
                           (queues s));
             allEvents' = sort_key (\<lambda>event. - ev_timestamp event) allEvents
         in (js_slice allEvents' 0 (Some (case limit of None \<Rightarrow> 0 | Some l \<Rightarrow> l)),
             length allEvents')))"

section \<open>The listeners and the runs of the monitor\<close>

text \<open>
  What the backend emits on a queue, with the arguments it passes to the listener
  \<open>setupQueueMonitoring\<close> registered: the five job events pass the job, \<open>failed\<close>
  and \<open>error\<close> pass the error (\<open>checkForAlerts\<close> has a default for an absent one).
\<close>

datatype queue_emit =
    Waiting job
  | Active job
  | Completed job
  | Failed job "jserror option"
  | Stalled job
  | BackendError "jserror option"

fun setupQueueMonitoring ::
  "monitoring_data \<Rightarrow> string \<Rightarrow> queue_emit \<Rightarrow> instant \<Rightarrow> monitoring_data" where
  "setupQueueMonitoring s queueName (Waiting job) now =
     addMonitoringEvent s queueName ''waiting'' (Some job) None now"
| "setupQueueMonitoring s queueName (Active job) now =
     addMonitoringEvent s queueName ''active'' (Some job) None now"
| "setupQueueMonitoring s queueName (Completed job) now =
     updatePerformanceMetrics
       (addMonitoringEvent s queueName ''completed'' (Some job) None now)
       queueName ''completed'' job"
| "setupQueueMonitoring s queueName (Failed job err) now =
     checkForAlerts
       (updatePerformanceMetrics
          (addMonitoringEvent s queueName ''failed'' (Some job) err now)
          queueName ''failed'' job)
       queueName ''failed'' err now"
| "setupQueueMonitoring s queueName (Stalled job) now =
     checkForAlerts
       (addMonitoringEvent s queueName ''stalled'' (Some job) None now)
       queueName ''stalled'' None now"
| "setupQueueMonitoring s queueName (BackendError err) now =
     checkForAlerts
       (addMonitoringEvent s queueName ''error'' None err now)
       queueName ''error'' err now"

text \<open>
  One callback of the process: an emitted event, one \<open>updateQueueStatus\<close> of the
  startup loop or of the 30-second refresh, a tick of the 60-second rollup, a tick of
  the 10-second alert system, or the exported \<open>clearAlerts\<close>. A run is a sequence of
  callbacks from the initial \<open>monitoringData\<close>.
\<close>

datatype operation =
    Emit string queue_emit instant
  | Refresh string "backend_status option" instant
  | PerformanceTick instant
  | AlertTick instant
  | ClearAlerts

fun step :: "monitoring_data \<Rightarrow> operation \<Rightarrow> monitoring_data" where
  "step s (Emit queueName e now) = setupQueueMonitoring s queueName e now"
| "step s (Refresh queueName fetched now) = updateQueueStatus s queueName fetched now"
| "step s (PerformanceTick now) = startPerformanceMonitoring s now"
| "step s (AlertTick now) = startAlertSystem s now"
| "step s ClearAlerts = clearAlerts s"

definition run :: "operation list \<Rightarrow> monitoring_data" where
  "run ops = foldl step init_monitoringData ops"

section \<open>The recurring-job registry (src/scheduler/setup.js)\<close>

text \<open>
  Modelled from the spec: the repeatable-job subsystem of the Job Queue Backend behind
  \<open>recurringQueue\<close> (the library calls \<open>getRepeatableJobs\<close> and
  \<open>removeRepeatableByKey\<close>). The backend holds the current list of repeatable jobs,
  each with a name, a cron pattern, its next run time, an id and the key the backend
  assigned; a call is rejected when the connection is unavailable, and removal by key
  drops the entries with that key.
\<close>

record repeatable_job =
  rj_name :: string
  rj_pattern :: string
  rj_next :: instant
  rj_id :: "string option"
  rj_key :: string

record recurring_queue =
  rq_repeatable :: "repeatable_job list"
  rq_available :: bool

datatype backend_error = BackendUnavailable

text \<open>
  Modelled from the spec: \<open>getRepeatableJobs\<close> of the backend returns the current list
  of repeatable jobs, or is rejected when the backend is unavailable.
\<close>

definition getRepeatableJobs :: "recurring_queue \<Rightarrow> backend_error + repeatable_job list" where
  "getRepeatableJobs q = (if rq_available q then Inr (rq_repeatable q) else Inl BackendUnavailable)"

text \<open>
  Modelled from the spec: \<open>removeRepeatableByKey\<close> of the backend removes the entries
  with the given key, or is rejected when the backend is unavailable.
\<close>

definition removeRepeatableByKey ::
  "recurring_queue \<Rightarrow> string \<Rightarrow> backend_error + recurring_queue" where
  "removeRepeatableByKey q key =
     (if rq_available q
      then Inr (q\<lparr>rq_repeatable := filter (\<lambda>j. rj_key j \<noteq> key) (rq_repeatable q)\<rparr>)
      else Inl BackendUnavailable)"

text \<open>
  \<open>removeRecurringJob\<close>: the result is the error the \<open>catch\<close> block rethrows, or
  the returned boolean with the backend after the call.
\<close>

definition removeRecurringJob ::
  "recurring_queue \<Rightarrow> string \<Rightarrow> backend_error + (bool \<times> recurring_queue)" where
  "removeRecurringJob recurringQueue name =
     (case getRepeatableJobs recurringQueue of
        Inl e \<Rightarrow> Inl e
      | Inr repeatableJobs \<Rightarrow>
          (case find (\<lambda>job. rj_name job = name) repeatableJobs of
             Some job \<Rightarrow>
               (case removeRepeatableByKey recurringQueue (rj_key job) of
                  Inl e \<Rightarrow> Inl e
                | Inr recurringQueue' \<Rightarrow> Inr (True, recurringQueue'))
           | None \<Rightarrow> Inr (False, recurringQueue)))"

definition getRecurringJobs :: "recurring_queue \<Rightarrow> backend_error + repeatable_job list" where
  "getRecurringJobs recurringQueue = getRepeatableJobs recurringQueue"

section \<open>Notions the properties are stated with\<close>

text \<open>The last \<open>n\<close> elements of a list, in their order.\<close>

definition last_n :: "nat \<Rightarrow> 'a list \<Rightarrow> 'a list" where
  "last_n n xs = drop (length xs - n) xs"

text \<open>The event record \<open>addMonitoringEvent\<close> builds.\<close>

definition event_of ::
  "string \<Rightarrow> string \<Rightarrow> job option \<Rightarrow> jserror option \<Rightarrow> instant \<Rightarrow> queue_event" where
  "event_of queueName event job error now =
     \<lparr>ev_queueName = queueName, ev_event = event, ev_timestamp = now,
      ev_jobId = Option.bind job job_id, ev_jobName = Option.bind job job_name,
      ev_error = map_option err_message error\<rparr>"

text \<open>The event log of a queue: empty when the queue has no entry or the entry has no \<open>events\<close>.\<close>

definition event_log :: "monitoring_data \<Rightarrow> string \<Rightarrow> queue_event list" where
  "event_log s queueName =
     (case map_of (queues s) queueName of
        None \<Rightarrow> []
      | Some status \<Rightarrow> (case qs_events status of None \<Rightarrow> [] | Some es \<Rightarrow> es))"

text \<open>The entry of a queue, or the empty object \<open>addMonitoringEvent\<close> starts from.\<close>

definition status_or_empty :: "monitoring_data \<Rightarrow> string \<Rightarrow> queue_status" where
  "status_or_empty s queueName =
     (case map_of (queues s) queueName of
        None \<Rightarrow> \<lparr>qs_counts = None, qs_events = None\<rparr>
      | Some q \<Rightarrow> q)"

text \<open>Every entry of \<open>queues\<close> holds at most 100 events.\<close>

definition events_bounded :: "(string \<times> queue_status) list \<Rightarrow> bool" where
  "events_bounded qs =
     list_all (\<lambda>entry. case qs_events (snd entry) of None \<Rightarrow> True
                                                    | Some es \<Rightarrow> length es \<le> 100) qs"

text \<open>The alert record \<open>checkForAlerts\<close> builds from its arguments.\<close>

definition alert_of :: "string \<times> string \<times> jserror option \<times> instant \<Rightarrow> alert" where
  "alert_of c = (case c of (queueName, event, error, now) \<Rightarrow>
     \<lparr>al_queueName = queueName, al_event = event, al_error = map_option err_message error,
      al_timestamp = now, al_severity = severity_of event error\<rparr>)"

text \<open>
  The arguments with which the listener of an emitted event calls
  \<open>addMonitoringEvent\<close>, and the event record that results.
\<close>

fun emit_args :: "queue_emit \<Rightarrow> string \<times> job option \<times> jserror option" where
  "emit_args (Waiting job) = (''waiting'', Some job, None)"
| "emit_args (Active job) = (''active'', Some job, None)"
| "emit_args (Completed job) = (''completed'', Some job, None)"
| "emit_args (Failed job err) = (''failed'', Some job, err)"
| "emit_args (Stalled job) = (''stalled'', Some job, None)"
| "emit_args (BackendError err) = (''error'', None, err)"

definition emitted_event :: "string \<Rightarrow> queue_emit \<Rightarrow> instant \<Rightarrow> queue_event" where
  "emitted_event queueName e now =
     (case emit_args e of (event, job, error) \<Rightarrow> event_of queueName event job error now)"

text \<open>The operation is an \<open>updateQueueStatus\<close> of this queue that the backend answered.\<close>

fun refreshes :: "string \<Rightarrow> operation \<Rightarrow> bool" where
  "refreshes queueName (Refresh queueName' (Some b) now) = (queueName' = queueName)"
| "refreshes queueName _ = False"

text \<open>The metrics of a queue, or the zeroed entry \<open>updatePerformanceMetrics\<close> starts from.\<close>

definition metrics_or_new :: "monitoring_data \<Rightarrow> string \<Rightarrow> perf_entry" where
  "metrics_or_new s queueName =
     (case getPerformanceMetrics s queueName of None \<Rightarrow> new_metrics | Some m \<Rightarrow> m)"

text \<open>
  The processing times a run recorded for a queue: one for every \<open>completed\<close> event
  of the queue whose job carried \<open>processedOn\<close> and \<open>timestamp\<close> (present and not
  \<open>0\<close>, the test of the source), in the order of the events.
\<close>

fun recorded_time :: "string \<Rightarrow> operation \<Rightarrow> rat list" where
  "recorded_time queueName (Emit queueName' (Completed job) now) =
     (case (job_processedOn job, job_timestamp job) of
        (Some p, Some t) \<Rightarrow>
          (if queueName' = queueName \<and> p \<noteq> 0 \<and> t \<noteq> 0 then [of_int (p - t)] else [])
      | _ \<Rightarrow> [])"
| "recorded_time queueName _ = []"

definition recorded_times :: "string \<Rightarrow> operation list \<Rightarrow> rat list" where
  "recorded_times queueName ops = concat (map (recorded_time queueName) ops)"

definition mean :: "rat list \<Rightarrow> rat" where
  "mean xs = (if xs = [] then 0 else sum_list xs / of_nat (length xs))"

text \<open>The listener of \<open>failed\<close> run on one queue for a list of jobs, errors and instants.\<close>

definition ingest_failed ::
  "monitoring_data \<Rightarrow> string \<Rightarrow> (job \<times> jserror option \<times> instant) list \<Rightarrow> monitoring_data" where
  "ingest_failed s queueName fails =
     foldl (\<lambda>s c. case c of (job, err, now) \<Rightarrow>
                     setupQueueMonitoring s queueName (Failed job err) now) s fails"

text \<open>
  An entry of \<open>performance\<close> agrees with a list of recorded processing times: no
  entry and no time, or \<open>jobCount\<close> their number, \<open>totalProcessingTime\<close> their
  sum and \<open>avgProcessingTime\<close> their arithmetic mean (\<open>0\<close> for none).
\<close>

definition metrics_match :: "rat list \<Rightarrow> perf_entry option \<Rightarrow> bool" where
  "metrics_match pts entry =
     (case entry of
        None \<Rightarrow> pts = []
      | Some m \<Rightarrow>
          pm_jobCount m = Some (Num (of_nat (length pts)))
          \<and> pm_totalProcessingTime m = Some (Num (sum_list pts))
          \<and> pm_avgProcessingTime m = Some (Num (mean pts)))"

fun is_rollup :: "operation \<Rightarrow> bool" where
  "is_rollup (PerformanceTick now) = True"
| "is_rollup _ = False"

text \<open>
  A per-queue metrics entry as \<open>updatePerformanceMetrics\<close> leaves it: numeric
  \<open>completed\<close>, \<open>failed\<close> and \<open>avgProcessingTime\<close>.
\<close>

fun queue_metrics :: "perf_entry \<Rightarrow> (rat \<times> rat \<times> rat) option" where
  "queue_metrics m =
     (case (pm_completed m, pm_failed m, pm_avgProcessingTime m) of
        (Some (Num c), Some (Num f), Some (Num a)) \<Rightarrow> Some (c, f, a)
      | _ \<Rightarrow> None)"

text \<open>
  The alerts the performance pass raises for one entry of \<open>performance\<close>, in the
  order of the two tests of the source.
\<close>

definition perf_alerts_of :: "instant \<Rightarrow> string \<times> perf_entry \<Rightarrow> alert list" where
  "perf_alerts_of now entry =
     (case entry of (queueName, metrics) \<Rightarrow>
        (if js_gt (toNumber (pm_avgProcessingTime metrics)) (Num 30000)
         then [alert_of (queueName, ''slow-processing'',
                 Some (Error (SlowProcessing (toNumber (pm_avgProcessingTime metrics)))),
                 now)]
         else [])
        @ (if js_gt (js_add (toNumber (pm_completed metrics)) (toNumber (pm_failed metrics)))
                    (Num 0)
              \<and> js_gt (js_div (toNumber (pm_failed metrics))
                          (js_add (toNumber (pm_completed metrics)) (toNumber (pm_failed metrics))))
                       (Num (1 / 5))
           then [alert_of (queueName, ''high-failure-rate'',
                   Some (Error (HighFailureRate (toNumber (pm_failed metrics))
                     (js_add (toNumber (pm_completed metrics)) (toNumber (pm_failed metrics))))),
                   now)]
           else []))"

text \<open>
  The events of all queues, each under the name of its queue, in the order of the
  queues and of their logs: the list the events route sorts when no queue is named.
\<close>

definition all_events :: "monitoring_data \<Rightarrow> queue_event list" where
  "all_events s =
     concat (map (\<lambda>(name, queueData).
                    case qs_events queueData of
                      None \<Rightarrow> []
                    | Some es \<Rightarrow> map (\<lambda>event. event\<lparr>ev_queueName := name\<rparr>) es)
                 (queues s))"

text \<open>Newest first.\<close>

definition newest_first :: "queue_event list \<Rightarrow> bool" where
  "newest_first es = sorted_wrt (\<lambda>a b. ev_timestamp a \<ge> ev_timestamp b) es"

text \<open>
  The entries of \<open>performance\<close> as the listeners and the rollup leave them: under
  \<open>system\<close> the entry of the rollup, without counts; under every other key metrics
  with numeric, non-negative \<open>completed\<close> and \<open>failed\<close> and
  \<open>completed + failed > 0\<close>.
\<close>

fun nonneg_num :: "jsnum option \<Rightarrow> bool" where
  "nonneg_num (Some (Num c)) = (0 \<le> c)"
| "nonneg_num _ = False"

definition counted_entry :: "string \<times> perf_entry \<Rightarrow> bool" where
  "counted_entry entry =
     (case entry of (queueName, m) \<Rightarrow>
        if queueName = ''system'' then pm_completed m = None \<and> pm_failed m = None
        else nonneg_num (pm_completed m) \<and> nonneg_num (pm_failed m)
             \<and> js_gt (js_add (toNumber (pm_completed m)) (toNumber (pm_failed m))) (Num 0))"

text \<open>The operation is an event emitted for a queue named \<open>system\<close>.\<close>

fun emits_system :: "operation \<Rightarrow> bool" where
  "emits_system (Emit queueName e now) = (queueName = ''system'')"
| "emits_system _ = False"

section \<open>Bounded logs and frames of the operations\<close>

lemma js_slice_negative:
  "0 < n \<Longrightarrow> js_slice xs (- n) None = last_n (nat n) xs"
  by (simp add: js_slice_def last_n_def Let_def nat_diff_distrib' max_def)

lemma push_bounded_50:
  "(if length (xs @ [x]) > 50 then js_slice (xs @ [x]) (- 50) None else xs @ [x])
     = last_n 50 (xs @ [x])"
  using js_slice_negative [of 50 "xs @ [x]"] by (simp add: last_n_def)

lemma push_bounded_100:
  "(if length (xs @ [x]) > 100 then js_slice (xs @ [x]) (- 100) None else xs @ [x])
     = last_n 100 (xs @ [x])"
  using js_slice_negative [of 100 "xs @ [x]"] by (simp add: last_n_def)

lemma last_n_snoc_nonempty: "0 < n \<Longrightarrow> last_n n (xs @ [x]) \<noteq> []"
  by (simp add: last_n_def)

lemma last_last_n_snoc: "0 < n \<Longrightarrow> last (last_n n (xs @ [x])) = x"
  by (simp add: last_n_def)

lemma length_last_n: "length (last_n n xs) = min n (length xs)"
  by (simp add: last_n_def)

lemma last_n_last_n_append: "last_n n (last_n n xs @ ys) = last_n n (xs @ ys)"
proof (cases "length xs \<le> n")
  case True
  then show ?thesis by (simp add: last_n_def)
next
  case False
  then have "length xs - n + n = length xs" by simp
  then show ?thesis using False by (simp add: last_n_def add.commute)
qed

lemma alerts_checkForAlerts:
  "alerts (checkForAlerts s queueName event error now)
     = last_n 50 (alerts s @ [\<lparr>al_queueName = queueName, al_event = event,
                               al_error = map_option err_message error, al_timestamp = now,
                               al_severity = severity_of event error\<rparr>])"
  unfolding checkForAlerts_def Let_def
  by (simp only: push_bounded_50) simp

lemma queues_checkForAlerts [simp]:
  "queues (checkForAlerts s queueName event error now) = queues s"
  by (simp add: checkForAlerts_def Let_def)

lemma performance_checkForAlerts [simp]:
  "performance (checkForAlerts s queueName event error now) = performance s"
  by (simp add: checkForAlerts_def Let_def)

lemma alerts_addMonitoringEvent [simp]:
  "alerts (addMonitoringEvent s queueName event job error now) = alerts s"
  by (simp add: addMonitoringEvent_def Let_def)

lemma performance_addMonitoringEvent [simp]:
  "performance (addMonitoringEvent s queueName event job error now) = performance s"
  by (simp add: addMonitoringEvent_def Let_def)

lemma queues_addMonitoringEvent:
  "queues (addMonitoringEvent s queueName event job error now)
     = AList.update queueName
         ((status_or_empty s queueName)
            \<lparr>qs_events := Some (last_n 100 (event_log s queueName
                                             @ [event_of queueName event job error now]))\<rparr>)
         (queues s)"
  unfolding addMonitoringEvent_def Let_def event_log_def event_of_def status_or_empty_def
  by (simp only: push_bounded_100) (simp split: option.splits)

lemma queues_updatePerformanceMetrics [simp]:
  "queues (updatePerformanceMetrics s queueName event job) = queues s"
  by (simp add: updatePerformanceMetrics_def Let_def)

lemma alerts_updatePerformanceMetrics [simp]:
  "alerts (updatePerformanceMetrics s queueName event job) = alerts s"
  by (simp add: updatePerformanceMetrics_def Let_def)

lemma queues_checkQueueHealth_entry [simp]:
  "queues (checkQueueHealth_entry now s entry) = queues s"
  by (cases entry) (simp add: checkQueueHealth_entry_def Let_def split: option.splits)

lemma performance_checkQueueHealth_entry [simp]:
  "performance (checkQueueHealth_entry now s entry) = performance s"
  by (cases entry) (simp add: checkQueueHealth_entry_def Let_def split: option.splits)

lemma queues_checkPerformanceAlerts_entry [simp]:
  "queues (checkPerformanceAlerts_entry now s entry) = queues s"
  by (cases entry) (simp add: checkPerformanceAlerts_entry_def Let_def)

lemma performance_checkPerformanceAlerts_entry [simp]:
  "performance (checkPerformanceAlerts_entry now s entry) = performance s"
  by (cases entry) (simp add: checkPerformanceAlerts_entry_def Let_def)

lemma foldl_frame:
  assumes "\<And>s x. g (f s x) = g s"
  shows "g (foldl f s xs) = g s"
  using assms by (induction xs arbitrary: s) simp_all

lemma queues_checkQueueHealth [simp]: "queues (checkQueueHealth s now) = queues s"
  unfolding checkQueueHealth_def by (rule foldl_frame) simp

lemma performance_checkQueueHealth [simp]: "performance (checkQueueHealth s now) = performance s"
  unfolding checkQueueHealth_def by (rule foldl_frame) simp

lemma queues_checkPerformanceAlerts [simp]: "queues (checkPerformanceAlerts s now) = queues s"
  unfolding checkPerformanceAlerts_def by (rule foldl_frame) simp

lemma performance_checkPerformanceAlerts [simp]:
  "performance (checkPerformanceAlerts s now) = performance s"
  unfolding checkPerformanceAlerts_def by (rule foldl_frame) simp

lemma queues_startAlertSystem [simp]: "queues (startAlertSystem s now) = queues s"
  by (simp add: startAlertSystem_def)

lemma performance_startAlertSystem [simp]: "performance (startAlertSystem s now) = performance s"
  by (simp add: startAlertSystem_def)

lemma queues_startPerformanceMonitoring [simp]:
  "queues (startPerformanceMonitoring s now) = queues s"
  by (simp add: startPerformanceMonitoring_def Let_def)

lemma alerts_startPerformanceMonitoring [simp]:
  "alerts (startPerformanceMonitoring s now) = alerts s"
  by (simp add: startPerformanceMonitoring_def Let_def)

lemma performance_updateQueueStatus [simp]:
  "performance (updateQueueStatus s queueName fetched now) = performance s"
  by (simp add: updateQueueStatus_def split: option.splits)

lemma alerts_updateQueueStatus [simp]:
  "alerts (updateQueueStatus s queueName fetched now) = alerts s"
  by (simp add: updateQueueStatus_def split: option.splits)

lemma length_alerts_checkForAlerts:
  "length (alerts (checkForAlerts s queueName event error now)) \<le> 50"
  by (simp add: alerts_checkForAlerts length_last_n)

lemma length_alerts_checkQueueHealth_entry:
  "length (alerts s) \<le> 50 \<Longrightarrow> length (alerts (checkQueueHealth_entry now s entry)) \<le> 50"
  by (cases entry)
     (simp add: checkQueueHealth_entry_def Let_def length_alerts_checkForAlerts
           split: option.splits)

lemma length_alerts_checkPerformanceAlerts_entry:
  "length (alerts s) \<le> 50 \<Longrightarrow> length (alerts (checkPerformanceAlerts_entry now s entry)) \<le> 50"
  by (cases entry)
     (simp add: checkPerformanceAlerts_entry_def Let_def length_alerts_checkForAlerts)

lemma foldl_invariant:
  assumes "P s" and "\<And>s x. P s \<Longrightarrow> P (f s x)"
  shows "P (foldl f s xs)"
  using assms by (induction xs arbitrary: s) simp_all

lemma length_alerts_startAlertSystem:
  assumes "length (alerts s) \<le> 50"
  shows "length (alerts (startAlertSystem s now)) \<le> 50"
proof -
  have "length (alerts (checkQueueHealth s now)) \<le> 50"
    unfolding checkQueueHealth_def
    by (rule foldl_invariant [where P = "\<lambda>s. length (alerts s) \<le> 50"])
       (simp_all add: assms length_alerts_checkQueueHealth_entry)
  then show ?thesis
    unfolding startAlertSystem_def checkPerformanceAlerts_def
    by (intro foldl_invariant [where P = "\<lambda>s. length (alerts s) \<le> 50"])
       (simp_all add: length_alerts_checkPerformanceAlerts_entry)
qed

lemma length_alerts_step:
  assumes "length (alerts s) \<le> 50"
  shows "length (alerts (step s op)) \<le> 50"
proof (cases op)
  case (Emit queueName e now)
  then show ?thesis
    using assms by (cases e) (simp_all add: length_alerts_checkForAlerts)
next
  case (AlertTick now)
  then show ?thesis using assms by (simp add: length_alerts_startAlertSystem)
qed (simp_all add: clearAlerts_def assms)

lemma list_all_update:
  "list_all P al \<Longrightarrow> P (k, v) \<Longrightarrow> list_all P (AList.update k v al)"
  by (induction al) auto

lemma events_bounded_addMonitoringEvent:
  "events_bounded (queues s) \<Longrightarrow>
   events_bounded (queues (addMonitoringEvent s queueName event job error now))"
  unfolding events_bounded_def queues_addMonitoringEvent
  by (rule list_all_update) (simp_all add: length_last_n)

lemma events_bounded_updateQueueStatus:
  "events_bounded (queues s) \<Longrightarrow>
   events_bounded (queues (updateQueueStatus s queueName fetched now))"
  unfolding events_bounded_def updateQueueStatus_def
  by (cases fetched) (simp_all add: list_all_update)

lemma events_bounded_step:
  assumes "events_bounded (queues s)"
  shows "events_bounded (queues (step s op))"
proof (cases op)
  case (Emit queueName e now)
  then show ?thesis
    using assms by (cases e) (simp_all add: events_bounded_addMonitoringEvent)
next
  case (Refresh queueName fetched now)
  then show ?thesis using assms by (simp add: events_bounded_updateQueueStatus)
qed (simp_all add: clearAlerts_def assms)

lemma run_snoc: "run (ops @ [op]) = step (run ops) op"
  by (simp add: run_def)

lemma run_Nil: "run [] = init_monitoringData"
  by (simp add: run_def)

lemma run_bounded:
  "events_bounded (queues (run ops)) \<and> length (alerts (run ops)) \<le> 50"
proof (induction ops rule: rev_induct)
  case Nil
  show ?case by (simp add: run_Nil init_monitoringData_def events_bounded_def)
next
  case (snoc op ops)
  then show ?case
    by (simp add: run_snoc events_bounded_step length_alerts_step)
qed

lemma foldl_push_bounded:
  assumes "\<And>s x. g (f s x) = last_n n (g s @ [h x])"
  shows "g (foldl f s xs) = (if xs = [] then g s else last_n n (g s @ map h xs))"
proof (induction xs rule: rev_induct)
  case Nil
  show ?case by simp
next
  case (snoc x xs)
  show ?case
  proof (cases "xs = []")
    case True
    then show ?thesis by (simp add: assms)
  next
    case False
    then have "g (foldl f s (xs @ [x])) = last_n n (last_n n (g s @ map h xs) @ [h x])"
      using snoc by (simp add: assms)
    then show ?thesis by (simp add: last_n_last_n_append)
  qed
qed

lemma alerts_checkForAlerts_many:
  "alerts (foldl (\<lambda>s c. case c of (queueName, event, error, now) \<Rightarrow>
                          checkForAlerts s queueName event error now) s calls)
     = (if calls = [] then alerts s else last_n 50 (alerts s @ map alert_of calls))"
  by (rule foldl_push_bounded) (auto simp: alerts_checkForAlerts alert_of_def)

lemma event_log_addMonitoringEvent:
  "event_log (addMonitoringEvent s queueName event job error now) queueName
     = last_n 100 (event_log s queueName @ [event_of queueName event job error now])"
  by (simp add: queues_addMonitoringEvent update_conv' event_log_def)

lemma event_log_addMonitoringEvent_many:
  "event_log (foldl (\<lambda>s c. case c of (event, job, error, now) \<Rightarrow>
                             addMonitoringEvent s queueName event job error now) s calls)
             queueName
     = (if calls = [] then event_log s queueName
        else last_n 100 (event_log s queueName
               @ map (\<lambda>(event, job, error, now). event_of queueName event job error now) calls))"
  by (rule foldl_push_bounded [where g = "\<lambda>s. event_log s queueName"])
     (auto simp: event_log_addMonitoringEvent)

section \<open>Severity of a reactive alert\<close>

text \<open>
  Claim C1. \<open>checkForAlerts\<close> always appends one alert, which is then the newest entry
  of the alert log, and the severity of that alert is determined by the event kind and
  by whether an error was passed: \<open>failed\<close> with an error gives \<open>error\<close>,
  \<open>stalled\<close> gives \<open>warning\<close>, \<open>error\<close> gives \<open>critical\<close>, and every other
  combination (among them \<open>failed\<close> without an error) gives \<open>warning\<close>. The queue
  name, the state and the clock have no influence.
\<close>

theorem checkForAlerts_severity_total:
  "alerts (checkForAlerts s queueName event error now) \<noteq> []
   \<and> (event = ''failed'' \<and> error \<noteq> None \<longrightarrow>
        al_severity (last (alerts (checkForAlerts s queueName event error now))) = ''error'')
   \<and> (event = ''stalled'' \<longrightarrow>
        al_severity (last (alerts (checkForAlerts s queueName event error now))) = ''warning'')
   \<and> (event = ''error'' \<longrightarrow>
        al_severity (last (alerts (checkForAlerts s queueName event error now))) = ''critical'')
   \<and> (\<not> (event = ''failed'' \<and> error \<noteq> None) \<and> event \<noteq> ''stalled'' \<and> event \<noteq> ''error'' \<longrightarrow>
        al_severity (last (alerts (checkForAlerts s queueName event error now))) = ''warning'')"
  unfolding alerts_checkForAlerts
  by (simp add: last_n_snoc_nonempty last_last_n_snoc severity_of_def)

theorem checkForAlerts_severity_total_witness:
  "al_severity (last (alerts (checkForAlerts init_monitoringData ''email-queue'' ''failed''
       (Some (Error (Text ''boom''))) 0))) = ''error''
   \<and> al_severity (last (alerts (checkForAlerts init_monitoringData ''email-queue'' ''stalled''
       None 0))) = ''warning''
   \<and> al_severity (last (alerts (checkForAlerts init_monitoringData ''email-queue'' ''error''
       (Some (Error (Text ''boom''))) 0))) = ''critical''
   \<and> al_severity (last (alerts (checkForAlerts init_monitoringData ''email-queue'' ''failed''
       None 0))) = ''warning''
   \<and> al_severity (last (alerts (checkForAlerts init_monitoringData ''email-queue''
       ''queue-paused'' (Some (Error QueuePaused)) 0))) = ''warning''"
  using checkForAlerts_severity_total
          [where s = init_monitoringData and queueName = "''email-queue''" and now = 0
             and event = "''failed''" and error = "Some (Error (Text ''boom''))"]
        checkForAlerts_severity_total
          [where s = init_monitoringData and queueName = "''email-queue''" and now = 0
             and event = "''stalled''" and error = None]
        checkForAlerts_severity_total
          [where s = init_monitoringData and queueName = "''email-queue''" and now = 0
             and event = "''error''" and error = "Some (Error (Text ''boom''))"]
        checkForAlerts_severity_total
          [where s = init_monitoringData and queueName = "''email-queue''" and now = 0
             and event = "''failed''" and error = None]
        checkForAlerts_severity_total
          [where s = init_monitoringData and queueName = "''email-queue''" and now = 0
             and event = "''queue-paused''" and error = "Some (Error QueuePaused)"]
  by simp

section \<open>Capacity of the event logs and of the alert log\<close>

text \<open>
  Claim C3. In every state a run reaches, the event log of every queue holds at most 100
  events and the alert log at most 50 alerts. An append keeps exactly the newest entries
  in insertion order: after one \<open>addMonitoringEvent\<close>, and after any non-empty
  sequence of them on one queue, the log of that queue is the last 100 entries of the old
  log followed by the new events; after one \<open>checkForAlerts\<close>, and after any
  non-empty sequence of them, the alert log is the last 50 entries of the old log followed
  by the new alerts.
\<close>

theorem logs_bounded_fifo:
  "(\<forall>queueName status es.
      getQueueStatus (run ops) queueName = Some status \<longrightarrow> qs_events status = Some es
        \<longrightarrow> length es \<le> 100)
   \<and> length (alerts (run ops)) \<le> 50
   \<and> event_log (addMonitoringEvent s queueName event job error now) queueName
       = last_n 100 (event_log s queueName @ [event_of queueName event job error now])
   \<and> (ecalls \<noteq> [] \<longrightarrow>
        event_log (foldl (\<lambda>s c. case c of (event, job, error, now) \<Rightarrow>
                                   addMonitoringEvent s queueName event job error now) s ecalls)
                  queueName
        = last_n 100 (event_log s queueName
            @ map (\<lambda>(event, job, error, now). event_of queueName event job error now) ecalls))
   \<and> alerts (checkForAlerts s queueName event error now)
       = last_n 50 (alerts s @ [alert_of (queueName, event, error, now)])
   \<and> (acalls \<noteq> [] \<longrightarrow>
        alerts (foldl (\<lambda>s c. case c of (queueName, event, error, now) \<Rightarrow>
                                checkForAlerts s queueName event error now) s acalls)
        = last_n 50 (alerts s @ map alert_of acalls))"
proof -
  have "length es \<le> 100"
    if "getQueueStatus (run ops) queueName = Some status" and "qs_events status = Some es"
    for queueName status es
  proof -
    have "(queueName, status) \<in> set (queues (run ops))"
      using that(1) by (simp add: getQueueStatus_def map_of_SomeD)
    moreover have "events_bounded (queues (run ops))"
      using run_bounded by simp
    ultimately show ?thesis
      using that(2) by (auto simp: events_bounded_def list_all_iff)
  qed
  moreover have "length (alerts (run ops)) \<le> 50"
    using run_bounded by simp
  ultimately show ?thesis
    by (simp add: event_log_addMonitoringEvent event_log_addMonitoringEvent_many
          alerts_checkForAlerts alerts_checkForAlerts_many alert_of_def)
qed

theorem logs_bounded_fifo_witness:
  "getQueueStatus (run [Emit ''email-queue'' (BackendError None) 7]) ''email-queue''
     = Some \<lparr>qs_counts = None,
             qs_events = Some [event_of ''email-queue'' ''error'' None None 7]\<rparr>
   \<and> length [event_of ''email-queue'' ''error'' None None 7] \<le> 100
   \<and> replicate 105 (''waiting'', None, None, 7) \<noteq> []
   \<and> event_log (foldl (\<lambda>s c. case c of (event, job, error, now) \<Rightarrow>
                                 addMonitoringEvent s ''email-queue'' event job error now)
                       (run [Emit ''email-queue'' (BackendError None) 7])
                       (replicate 105 (''waiting'', None, None, 7)))
                ''email-queue''
       = replicate 100 (event_of ''email-queue'' ''waiting'' None None 7)
   \<and> replicate 55 (''email-queue'', ''stalled'', None, 9) \<noteq> []
   \<and> alerts (foldl (\<lambda>s c. case c of (queueName, event, error, now) \<Rightarrow>
                              checkForAlerts s queueName event error now)
                    (run [Emit ''email-queue'' (BackendError None) 7])
                    (replicate 55 (''email-queue'', ''stalled'', None, 9)))
       = replicate 50 (alert_of (''email-queue'', ''stalled'', None, 9))"
proof -
  have run1: "event_log (run [Emit ''email-queue'' (BackendError None) 7]) ''email-queue''
                = [event_of ''email-queue'' ''error'' None None 7]"
    by (simp add: run_def init_monitoringData_def queues_addMonitoringEvent
          event_log_def status_or_empty_def last_n_def)
  have st1: "getQueueStatus (run [Emit ''email-queue'' (BackendError None) 7]) ''email-queue''
     = Some \<lparr>qs_counts = None,
             qs_events = Some [event_of ''email-queue'' ''error'' None None 7]\<rparr>"
    by (simp add: run_def init_monitoringData_def queues_addMonitoringEvent getQueueStatus_def
          event_log_def status_or_empty_def last_n_def)
  have al1: "alerts (run [Emit ''email-queue'' (BackendError None) 7])
                = [alert_of (''email-queue'', ''error'', None, 7)]"
    by (simp add: run_def init_monitoringData_def alerts_checkForAlerts alert_of_def last_n_def)
  show ?thesis
    using logs_bounded_fifo
            [of "[Emit ''email-queue'' (BackendError None) 7]"
                "run [Emit ''email-queue'' (BackendError None) 7]" "''email-queue''"
                "''waiting''" None None 7
                "replicate 105 (''waiting'', None, None, 7)"
                "replicate 55 (''email-queue'', ''stalled'', None, 9)"]
    by (simp add: st1 run1 al1 last_n_def)
qed

section \<open>Snapshots created by an event\<close>

lemma queues_setupQueueMonitoring:
  "queues (setupQueueMonitoring s queueName e now)
     = AList.update queueName
         ((status_or_empty s queueName)
            \<lparr>qs_events := Some (last_n 100 (event_log s queueName
                                             @ [emitted_event queueName e now]))\<rparr>)
         (queues s)"
  by (cases e) (simp_all add: queues_addMonitoringEvent emitted_event_def)

lemma getQueueStatus_Emit:
  "getQueueStatus (setupQueueMonitoring s queueName' e now) queueName
     = (if queueName = queueName'
        then Some ((status_or_empty s queueName)
               \<lparr>qs_events := Some (last_n 100 (event_log s queueName
                                                @ [emitted_event queueName e now]))\<rparr>)
        else getQueueStatus s queueName)"
  by (simp add: getQueueStatus_def queues_setupQueueMonitoring update_conv')

lemma counts_absent_step:
  assumes "getQueueStatus s queueName = Some status" and "qs_counts status = None"
    and "\<not> refreshes queueName op"
  shows "\<exists>status'. getQueueStatus (step s op) queueName = Some status'
                   \<and> qs_counts status' = None"
proof (cases op)
  case (Emit queueName' e now)
  then show ?thesis
    using assms(1,2)
    by (simp add: getQueueStatus_Emit) (auto simp: status_or_empty_def getQueueStatus_def)
next
  case (Refresh queueName' fetched now)
  then show ?thesis
    using assms
    by (cases fetched)
       (auto simp: getQueueStatus_def updateQueueStatus_def update_conv')
qed (use assms in \<open>simp_all add: getQueueStatus_def clearAlerts_def\<close>)

lemma counts_absent_steps:
  assumes "getQueueStatus s queueName = Some status" and "qs_counts status = None"
    and "list_all (\<lambda>op. \<not> refreshes queueName op) ops"
  shows "\<exists>status'. getQueueStatus (foldl step s ops) queueName = Some status'
                   \<and> qs_counts status' = None"
  using assms
proof (induction ops arbitrary: s status)
  case Nil
  then show ?case by simp
next
  case (Cons op ops)
  from Cons.prems obtain status' where
    "getQueueStatus (step s op) queueName = Some status'" "qs_counts status' = None"
    using counts_absent_step [of s queueName status op] by auto
  then show ?case
    using Cons.IH [of "step s op" status'] Cons.prems(3) by simp
qed

text \<open>
  Claim C10. When a queue has no entry, the listener of any emitted event creates one
  that holds the event log with that one event and nothing else: no counts, no paused
  flag, no \<open>lastUpdated\<close>. \<open>getQueueStatus\<close> returns this partial entry, not
  \<open>null\<close>, and the counts stay absent through every later operation that is not an
  answered \<open>updateQueueStatus\<close> of that queue.
\<close>

theorem partial_snapshot_until_refresh:
  assumes "getQueueStatus s queueName = None"
  shows "getQueueStatus (step s (Emit queueName e now)) queueName
           = Some \<lparr>qs_counts = None, qs_events = Some [emitted_event queueName e now]\<rparr>
       \<and> (list_all (\<lambda>op. \<not> refreshes queueName op) ops \<longrightarrow>
            (\<exists>status. getQueueStatus (foldl step (step s (Emit queueName e now)) ops) queueName
                        = Some status
                    \<and> qs_counts status = None))"
proof -
  have first: "getQueueStatus (step s (Emit queueName e now)) queueName
           = Some \<lparr>qs_counts = None, qs_events = Some [emitted_event queueName e now]\<rparr>"
    using assms
    by (simp add: getQueueStatus_Emit)
       (simp add: status_or_empty_def event_log_def getQueueStatus_def last_n_def)
  then show ?thesis
    using counts_absent_steps
            [of "step s (Emit queueName e now)" queueName
                "\<lparr>qs_counts = None, qs_events = Some [emitted_event queueName e now]\<rparr>" ops]
    by simp
qed

theorem partial_snapshot_until_refresh_witness:
  "getQueueStatus init_monitoringData ''email-queue'' = None
   \<and> list_all (\<lambda>op. \<not> refreshes ''email-queue'' op)
        [Emit ''email-queue'' (Stalled \<lparr>job_id = Some ''7'', job_name = None,
                                         job_processedOn = None, job_timestamp = Some 1\<rparr>) 6,
         Refresh ''priority-queue''
           (Some \<lparr>bs_waiting = 1, bs_active = 0, bs_completed = 0, bs_failed = 0,
                  bs_delayed = 0, bs_paused = False\<rparr>) 7,
         Refresh ''email-queue'' None 8,
         AlertTick 9]
   \<and> getQueueStatus (step init_monitoringData (Emit ''email-queue'' (BackendError None) 5))
        ''email-queue''
       = Some \<lparr>qs_counts = None,
               qs_events = Some [emitted_event ''email-queue'' (BackendError None) 5]\<rparr>
   \<and> (\<exists>status.
        getQueueStatus
          (foldl step (step init_monitoringData (Emit ''email-queue'' (BackendError None) 5))
             [Emit ''email-queue'' (Stalled \<lparr>job_id = Some ''7'', job_name = None,
                                         job_processedOn = None, job_timestamp = Some 1\<rparr>) 6,
              Refresh ''priority-queue''
                (Some \<lparr>bs_waiting = 1, bs_active = 0, bs_completed = 0, bs_failed = 0,
                       bs_delayed = 0, bs_paused = False\<rparr>) 7,
              Refresh ''email-queue'' None 8,
              AlertTick 9])
          ''email-queue'' = Some status
        \<and> qs_counts status = None)"
proof -
  have h: "getQueueStatus init_monitoringData ''email-queue'' = None"
    by (simp add: getQueueStatus_def init_monitoringData_def)
  have l: "list_all (\<lambda>op. \<not> refreshes ''email-queue'' op)
        [Emit ''email-queue'' (Stalled \<lparr>job_id = Some ''7'', job_name = None,
                                         job_processedOn = None, job_timestamp = Some 1\<rparr>) 6,
         Refresh ''priority-queue''
           (Some \<lparr>bs_waiting = 1, bs_active = 0, bs_completed = 0, bs_failed = 0,
                  bs_delayed = 0, bs_paused = False\<rparr>) 7,
         Refresh ''email-queue'' None 8,
         AlertTick 9]"
    by simp
  show ?thesis
    using h l partial_snapshot_until_refresh [OF h, of "BackendError None" 5] by blast
qed

section \<open>Performance metrics of a queue\<close>

lemma performance_updatePerformanceMetrics:
  "getPerformanceMetrics (updatePerformanceMetrics s queueName' event job) queueName
     = (if queueName = queueName'
        then getPerformanceMetrics (updatePerformanceMetrics s queueName event job) queueName
        else getPerformanceMetrics s queueName)"
  by (simp add: getPerformanceMetrics_def updatePerformanceMetrics_def Let_def update_conv')

lemma metrics_failed:
  "getPerformanceMetrics (updatePerformanceMetrics s queueName ''failed'' job) queueName
     = Some ((metrics_or_new s queueName)
               \<lparr>pm_failed := js_inc (pm_failed (metrics_or_new s queueName))\<rparr>)"
  by (simp add: getPerformanceMetrics_def updatePerformanceMetrics_def Let_def update_conv'
        metrics_or_new_def)

lemma getPerformanceMetrics_frame [simp]:
  "getPerformanceMetrics (addMonitoringEvent s q event job error now) = getPerformanceMetrics s"
  "getPerformanceMetrics (checkForAlerts s q event error now) = getPerformanceMetrics s"
  "getPerformanceMetrics (updateQueueStatus s q fetched now) = getPerformanceMetrics s"
  "getPerformanceMetrics (startAlertSystem s now) = getPerformanceMetrics s"
  "getPerformanceMetrics (clearAlerts s) = getPerformanceMetrics s"
  by (simp_all add: getPerformanceMetrics_def fun_eq_iff clearAlerts_def)

lemma updatePerformanceMetrics_cong:
  "performance s = performance s' \<Longrightarrow>
   performance (updatePerformanceMetrics s q event job)
     = performance (updatePerformanceMetrics s' q event job)"
  by (simp add: updatePerformanceMetrics_def Let_def)

lemma getPerformanceMetrics_update_cong:
  "performance s = performance s' \<Longrightarrow>
   getPerformanceMetrics (updatePerformanceMetrics s q event job)
     = getPerformanceMetrics (updatePerformanceMetrics s' q event job)"
  using updatePerformanceMetrics_cong [of s s' q event job]
  by (simp add: getPerformanceMetrics_def fun_eq_iff)

lemma metrics_Failed:
  "metrics_or_new (setupQueueMonitoring s queueName (Failed job err) now) queueName
     = (metrics_or_new s queueName)
         \<lparr>pm_failed := js_inc (pm_failed (metrics_or_new s queueName))\<rparr>"
proof -
  have "getPerformanceMetrics (setupQueueMonitoring s queueName (Failed job err) now) queueName
          = getPerformanceMetrics (updatePerformanceMetrics s queueName ''failed'' job) queueName"
    using getPerformanceMetrics_update_cong
            [of "addMonitoringEvent s queueName ''failed'' (Some job) err now" s]
    by simp
  then show ?thesis
    by (simp add: metrics_failed metrics_or_new_def)
qed

lemma js_add_assoc_Num:
  "js_add (js_add x (Num a)) (Num b) = js_add x (Num (a + b))"
  by (cases x) simp_all

lemma js_add_zero: "js_add x (Num 0) = x"
  by (cases x) simp_all

lemma metrics_Failed_many:
  "metrics_or_new (ingest_failed s queueName fails) queueName
   = (if fails = [] then metrics_or_new s queueName
      else (metrics_or_new s queueName)
             \<lparr>pm_failed := Some (js_add (toNumber (pm_failed (metrics_or_new s queueName)))
                                         (Num (of_nat (length fails))))\<rparr>)"
  unfolding ingest_failed_def
proof (induction fails rule: rev_induct)
  case Nil
  show ?case by simp
next
  case (snoc c fails)
  obtain job err now where c: "c = (job, err, now)" by (cases c) auto
  show ?case
    using snoc
    by (simp add: c metrics_Failed js_inc_def js_add_assoc_Num add.commute
          del: setupQueueMonitoring.simps)
qed

text \<open>
  Claim C5. Ingesting \<open>N\<close> \<open>failed\<close> events for a queue (whatever jobs, errors and
  instants they carry, from any state) adds \<open>N\<close> to the \<open>failed\<close> count of the
  metrics of that queue (the zeroed metrics when the queue had none) and leaves
  \<open>completed\<close>, \<open>totalProcessingTime\<close>, \<open>jobCount\<close> and \<open>avgProcessingTime\<close>
  as they were.
\<close>

theorem failed_events_count_only:
  "pm_failed (metrics_or_new (ingest_failed s queueName fails) queueName)
     = (if fails = [] then pm_failed (metrics_or_new s queueName)
        else Some (js_add (toNumber (pm_failed (metrics_or_new s queueName)))
                          (Num (of_nat (length fails)))))
   \<and> (pm_failed (metrics_or_new s queueName) = Some (Num k) \<longrightarrow>
        pm_failed (metrics_or_new (ingest_failed s queueName fails) queueName)
          = Some (Num (k + of_nat (length fails))))
   \<and> pm_completed (metrics_or_new (ingest_failed s queueName fails) queueName)
       = pm_completed (metrics_or_new s queueName)
   \<and> pm_totalProcessingTime (metrics_or_new (ingest_failed s queueName fails) queueName)
       = pm_totalProcessingTime (metrics_or_new s queueName)
   \<and> pm_jobCount (metrics_or_new (ingest_failed s queueName fails) queueName)
       = pm_jobCount (metrics_or_new s queueName)
   \<and> pm_avgProcessingTime (metrics_or_new (ingest_failed s queueName fails) queueName)
       = pm_avgProcessingTime (metrics_or_new s queueName)"
  unfolding metrics_Failed_many by simp

theorem failed_events_count_only_witness:
  "pm_failed (metrics_or_new init_monitoringData ''email-queue'') = Some (Num 0)
   \<and> pm_failed (metrics_or_new
        (ingest_failed init_monitoringData ''email-queue''
           (replicate 3 (\<lparr>job_id = Some ''1'', job_name = Some ''send'',
                           job_processedOn = Some 1500, job_timestamp = Some 1000\<rparr>,
                         Some (Error (Text ''boom'')), 2000)))
        ''email-queue'') = Some (Num 3)"
proof -
  have h: "pm_failed (metrics_or_new init_monitoringData ''email-queue'') = Some (Num 0)"
    by (simp add: metrics_or_new_def getPerformanceMetrics_def init_monitoringData_def
          new_metrics_def)
  show ?thesis
    using h failed_events_count_only
              [where s = init_monitoringData and queueName = "''email-queue''" and k = 0
                 and fails = "replicate 3 (\<lparr>job_id = Some ''1'', job_name = Some ''send'',
                           job_processedOn = Some 1500, job_timestamp = Some 1000\<rparr>,
                         Some (Error (Text ''boom'')), 2000)"]
    by simp
qed

lemma getPerformanceMetrics_rollup:
  "getPerformanceMetrics (startPerformanceMonitoring s now) queueName
     = (if queueName = ''system''
        then getPerformanceMetrics (startPerformanceMonitoring s now) ''system''
        else getPerformanceMetrics s queueName)"
  by (simp add: getPerformanceMetrics_def startPerformanceMonitoring_def Let_def update_conv')

lemma mean_snoc:
  "mean (pts @ [x]) = (sum_list pts + x) / (of_nat (length pts) + 1)"
  by (simp add: mean_def)

lemma metrics_match_completed:
  assumes "metrics_match pts (getPerformanceMetrics s queueName)"
  shows "metrics_match (pts @ recorded_time queueName (Emit queueName (Completed job) now))
           (getPerformanceMetrics (updatePerformanceMetrics s queueName ''completed'' job)
              queueName)"
proof (cases "getPerformanceMetrics s queueName")
  case None
  then have "pts = []" using assms by (simp add: metrics_match_def)
  then show ?thesis
    using None
    by (cases "job_processedOn job"; cases "job_timestamp job")
       (simp_all add: metrics_match_def getPerformanceMetrics_def updatePerformanceMetrics_def
          Let_def update_conv' new_metrics_def js_inc_def mean_def)
next
  case (Some m)
  have le: "of_nat (length pts) + (1::rat) \<noteq> 0"
    by (metis add.commute of_nat_Suc of_nat_neq_0)
  show ?thesis
    using Some assms le
    by (cases "job_processedOn job"; cases "job_timestamp job")
       (simp_all add: metrics_match_def getPerformanceMetrics_def updatePerformanceMetrics_def
          Let_def update_conv' js_inc_def mean_snoc)
qed

lemma metrics_match_failed:
  assumes "metrics_match pts (getPerformanceMetrics s queueName)"
  shows "metrics_match pts
           (getPerformanceMetrics (updatePerformanceMetrics s queueName ''failed'' job)
              queueName)"
  using assms
  by (cases "getPerformanceMetrics s queueName")
     (simp_all add: metrics_match_def metrics_failed metrics_or_new_def new_metrics_def mean_def)

lemma metrics_match_step:
  assumes "metrics_match pts (getPerformanceMetrics s queueName)"
    and "queueName \<noteq> ''system'' \<or> \<not> is_rollup op"
  shows "metrics_match (pts @ recorded_time queueName op)
           (getPerformanceMetrics (step s op) queueName)"
proof (cases op)
  case (Emit queueName' e now)
  show ?thesis
  proof (cases e)
    case (Completed job)
    have eq: "getPerformanceMetrics (step s op) queueName
          = getPerformanceMetrics (updatePerformanceMetrics s queueName' ''completed'' job)
              queueName"
      using getPerformanceMetrics_update_cong
              [of "addMonitoringEvent s queueName' ''completed'' (Some job) None now" s]
      by (simp add: Emit Completed)
    show ?thesis
    proof (cases "queueName' = queueName")
      case True
      then show ?thesis
        using metrics_match_completed [OF assms(1), of job now] eq Emit Completed by simp
    next
      case False
      then have "getPerformanceMetrics (step s op) queueName = getPerformanceMetrics s queueName"
        using eq performance_updatePerformanceMetrics [of s queueName' "''completed''" job queueName]
        by simp
      then show ?thesis
        using False assms(1) Emit Completed by (simp split: option.splits)
    qed
  next
    case (Failed job err)
    have eq: "getPerformanceMetrics (step s op) queueName
          = getPerformanceMetrics (updatePerformanceMetrics s queueName' ''failed'' job)
              queueName"
      using getPerformanceMetrics_update_cong
              [of "addMonitoringEvent s queueName' ''failed'' (Some job) err now" s]
      by (simp add: Emit Failed)
    show ?thesis
    proof (cases "queueName' = queueName")
      case True
      then show ?thesis
        using metrics_match_failed [OF assms(1), of job] eq Emit Failed by simp
    next
      case False
      then have "getPerformanceMetrics (step s op) queueName = getPerformanceMetrics s queueName"
        using eq performance_updatePerformanceMetrics [of s queueName' "''failed''" job queueName]
        by simp
      then show ?thesis
        using assms(1) Emit Failed by simp
    qed
  qed (use assms(1) Emit in simp_all)
next
  case (PerformanceTick now)
  then have "queueName \<noteq> ''system''" using assms(2) by simp
  then show ?thesis
    using assms(1) PerformanceTick getPerformanceMetrics_rollup [of s now queueName] by simp
qed (use assms(1) in simp_all)

lemma metrics_match_run:
  assumes "queueName \<noteq> ''system'' \<or> list_all (\<lambda>op. \<not> is_rollup op) ops"
  shows "metrics_match (recorded_times queueName ops) (getPerformanceMetrics (run ops) queueName)"
  using assms
proof (induction ops rule: rev_induct)
  case Nil
  show ?case
    by (simp add: run_Nil recorded_times_def metrics_match_def getPerformanceMetrics_def
          init_monitoringData_def)
next
  case (snoc op ops)
  then have "metrics_match (recorded_times queueName ops)
               (getPerformanceMetrics (run ops) queueName)"
    by auto
  moreover have "queueName \<noteq> ''system'' \<or> \<not> is_rollup op"
    using snoc.prems by auto
  ultimately show ?case
    using metrics_match_step [of "recorded_times queueName ops" "run ops" queueName op]
    by (simp add: run_snoc recorded_times_def)
qed

text \<open>
  Claim C4. After any run (events of every kind on every queue, refreshes, ticks), the
  metrics of a queue agree with the processing times the run recorded for it, that is
  \<open>processedOn - timestamp\<close> of exactly the \<open>completed\<close> events of the queue that
  carried both instants: \<open>jobCount\<close> is their number, \<open>totalProcessingTime\<close> their
  sum, and \<open>avgProcessingTime\<close> is \<open>totalProcessingTime / jobCount\<close>, their
  arithmetic mean, when there is one and \<open>0\<close> when there is none. A queue has no
  metrics only if it recorded no time. The queue must not be named like the key
  \<open>system\<close> under which the rollup stores its entry, unless the run has no rollup.
\<close>

theorem avgProcessingTime_is_mean:
  assumes "queueName \<noteq> ''system'' \<or> list_all (\<lambda>op. \<not> is_rollup op) ops"
  shows "case getPerformanceMetrics (run ops) queueName of
           None \<Rightarrow> recorded_times queueName ops = []
         | Some m \<Rightarrow>
             pm_jobCount m = Some (Num (of_nat (length (recorded_times queueName ops))))
             \<and> pm_totalProcessingTime m = Some (Num (sum_list (recorded_times queueName ops)))
             \<and> pm_avgProcessingTime m
                 = Some (Num (if recorded_times queueName ops = [] then 0
                              else sum_list (recorded_times queueName ops)
                                     / of_nat (length (recorded_times queueName ops))))
             \<and> pm_avgProcessingTime m
                 = Some (if pm_jobCount m = Some (Num 0) then Num 0
                         else js_div (toNumber (pm_totalProcessingTime m))
                                     (toNumber (pm_jobCount m)))"
proof -
  have m: "metrics_match (recorded_times queueName ops)
             (getPerformanceMetrics (run ops) queueName)"
    using assms by (rule metrics_match_run)
  show ?thesis
  proof (cases "getPerformanceMetrics (run ops) queueName")
    case None
    then show ?thesis using m by (simp add: metrics_match_def)
  next
    case (Some entry)
    then show ?thesis
      using m by (simp add: metrics_match_def mean_def)
  qed
qed

theorem avgProcessingTime_is_mean_witness:
  "''email-queue'' \<noteq> ''system''
   \<and> (case getPerformanceMetrics
        (run [Emit ''email-queue''
                (Completed \<lparr>job_id = Some ''1'', job_name = Some ''send'',
                             job_processedOn = Some 3000, job_timestamp = Some 1000\<rparr>) 3001,
              Emit ''email-queue''
                (Completed \<lparr>job_id = Some ''2'', job_name = Some ''send'',
                             job_processedOn = None, job_timestamp = Some 1000\<rparr>) 3002,
              Emit ''email-queue''
                (Failed \<lparr>job_id = Some ''3'', job_name = Some ''send'',
                          job_processedOn = Some 3000, job_timestamp = Some 1000\<rparr>
                        (Some (Error (Text ''boom'')))) 3003,
              PerformanceTick 4000,
              Emit ''priority-queue''
                (Completed \<lparr>job_id = Some ''4'', job_name = Some ''urgent'',
                             job_processedOn = Some 4100, job_timestamp = Some 4000\<rparr>) 4101,
              Emit ''email-queue''
                (Completed \<lparr>job_id = Some ''5'', job_name = Some ''send'',
                             job_processedOn = Some 5000, job_timestamp = Some 1000\<rparr>) 5001])
        ''email-queue'' of
         None \<Rightarrow> False
       | Some m \<Rightarrow> pm_jobCount m = Some (Num 2)
                  \<and> pm_totalProcessingTime m = Some (Num 6000)
                  \<and> pm_avgProcessingTime m = Some (Num 3000))"
proof -
  have h: "''email-queue'' \<noteq> ''system''" by simp
  show ?thesis
    using avgProcessingTime_is_mean
            [where queueName = "''email-queue''"
               and ops = "[Emit ''email-queue''
                (Completed \<lparr>job_id = Some ''1'', job_name = Some ''send'',
                             job_processedOn = Some 3000, job_timestamp = Some 1000\<rparr>) 3001,
              Emit ''email-queue''
                (Completed \<lparr>job_id = Some ''2'', job_name = Some ''send'',
                             job_processedOn = None, job_timestamp = Some 1000\<rparr>) 3002,
              Emit ''email-queue''
                (Failed \<lparr>job_id = Some ''3'', job_name = Some ''send'',
                          job_processedOn = Some 3000, job_timestamp = Some 1000\<rparr>
                        (Some (Error (Text ''boom'')))) 3003,
              PerformanceTick 4000,
              Emit ''priority-queue''
                (Completed \<lparr>job_id = Some ''4'', job_name = Some ''urgent'',
                             job_processedOn = Some 4100, job_timestamp = Some 4000\<rparr>) 4101,
              Emit ''email-queue''
                (Completed \<lparr>job_id = Some ''5'', job_name = Some ''send'',
                             job_processedOn = Some 5000, job_timestamp = Some 1000\<rparr>) 5001]"]
    by (simp add: recorded_times_def split: option.splits)
qed

section \<open>The status of the system health summary\<close>

lemma foldl_js_add_Num:
  "foldl (\<lambda>sum x. js_add sum (Num (f x))) (Num a) xs = Num (a + sum_list (map f xs))"
  by (induction xs arbitrary: a) (simp_all add: add.assoc)

lemma sum_list_of_nat:
  "sum_list (map (\<lambda>x. of_nat (f x)) xs) = (of_nat (sum_list (map f xs)) :: rat)"
  by (induction xs) simp_all

lemma foldl_js_add_NaN:
  "foldl (\<lambda>sum x. js_add sum (g x)) NaN xs = NaN"
  by (induction xs) simp_all

lemma foldl_js_add_absent:
  assumes "\<exists>x \<in> set xs. g x = NaN"
  shows "foldl (\<lambda>sum x. js_add sum (g x)) a xs = NaN"
  using assms
proof (induction xs arbitrary: a)
  case Nil
  then show ?case by simp
next
  case (Cons x xs)
  show ?case
  proof (cases "g x = NaN")
    case True
    then have "js_add a (g x) = NaN" by (cases a) simp_all
    then show ?thesis by (simp add: foldl_js_add_NaN)
  next
    case False
    then show ?thesis using Cons by simp
  qed
qed

text \<open>
  With a critical alert in the log the status is \<open>critical\<close>, whatever the entries of
  \<open>queues\<close> hold.
\<close>

lemma getSystemHealth_critical:
  "\<exists>a \<in> set (alerts s). al_severity a = ''critical'' \<Longrightarrow>
   sh_status (getSystemHealth s now) = ''critical''"
  by (auto simp: getSystemHealth_def Let_def filter_empty_conv)

text \<open>
  When every entry of \<open>queues\<close> has its counts, the status follows the rule with the
  arithmetic sum of the \<open>failed\<close> counts.
\<close>

lemma getSystemHealth_status_with_counts:
  assumes "list_all (\<lambda>status. qs_counts status \<noteq> None) (map snd (queues s))"
  shows "sh_status (getSystemHealth s now)
           = (if length (filter (\<lambda>a. al_severity a = ''critical'') (alerts s)) > 0
              then ''critical''
              else if sum_list (map (\<lambda>status. failed (the (qs_counts status)))
                                    (map snd (queues s))) > 10
              then ''warning'' else ''healthy'')"
proof -
  have "foldl (\<lambda>sum status. js_add sum (toNumber (status_prop failed status)))
              (Num 0) (map snd (queues s))
          = foldl (\<lambda>sum status. js_add sum (Num (of_nat (failed (the (qs_counts status))))))
              (Num 0) (map snd (queues s))"
    using assms
    by (intro foldl_cong refl) (auto simp: list_all_iff status_prop_def)
  also have "\<dots> = Num (of_nat (sum_list (map (\<lambda>status. failed (the (qs_counts status)))
                                              (map snd (queues s)))))"
    by (simp only: foldl_js_add_Num sum_list_of_nat) simp
  finally show ?thesis
    by (simp add: getSystemHealth_def Let_def)
qed

text \<open>
  When some entry of \<open>queues\<close> has no counts (an entry that \<open>addMonitoringEvent\<close>
  created and no refresh has overwritten), \<open>totalFailed\<close> is \<open>NaN\<close> and the status
  is never \<open>warning\<close>.
\<close>

lemma getSystemHealth_status_without_counts:
  assumes "\<exists>status \<in> set (map snd (queues s)). qs_counts status = None"
  shows "sh_totalFailed (getSystemHealth s now) = NaN
       \<and> sh_status (getSystemHealth s now) \<noteq> ''warning''"
proof -
  have "\<exists>status \<in> set (map snd (queues s)). toNumber (status_prop failed status) = NaN"
    using assms by (force simp: status_prop_def)
  then have "foldl (\<lambda>sum status. js_add sum (toNumber (status_prop failed status)))
              (Num 0) (map snd (queues s)) = NaN"
    by (rule foldl_js_add_absent)
  then show ?thesis
    by (simp add: getSystemHealth_def Let_def)
qed

text \<open>
  Claim C2, evaluated where the code departs from it. The run refreshes
  \<open>email-queue\<close> with 11 failed jobs, the refresh of \<open>image-processing-queue\<close>
  is rejected by the backend, and a \<open>waiting\<close> event arrives for
  \<open>image-processing-queue\<close>. No alert exists and the failed counts of the snapshots
  that have one sum to 11, yet \<open>totalFailed\<close> is \<open>NaN\<close> and the status is
  \<open>healthy\<close>, where the rule gives \<open>warning\<close>.
\<close>

theorem getSystemHealth_partial_snapshot_healthy:
  "alerts
     (run [Refresh ''email-queue''
           (Some \<lparr>bs_waiting = 0, bs_active = 0, bs_completed = 5, bs_failed = 11,
                  bs_delayed = 0, bs_paused = False\<rparr>) 1000,
         Refresh ''image-processing-queue'' None 1100,
         Emit ''image-processing-queue''
           (Waiting \<lparr>job_id = Some ''1'', job_name = Some ''resize'',
                    job_processedOn = None, job_timestamp = Some 1500\<rparr>) 2000]) = []
   \<and> map (\<lambda>(queueName, status). (queueName, map_option failed (qs_counts status)))
        (queues
           (run [Refresh ''email-queue''
                 (Some \<lparr>bs_waiting = 0, bs_active = 0, bs_completed = 5, bs_failed = 11,
                        bs_delayed = 0, bs_paused = False\<rparr>) 1000,
               Refresh ''image-processing-queue'' None 1100,
               Emit ''image-processing-queue''
                 (Waiting \<lparr>job_id = Some ''1'', job_name = Some ''resize'',
                          job_processedOn = None, job_timestamp = Some 1500\<rparr>) 2000]))
       = [(''email-queue'', Some 11), (''image-processing-queue'', None)]
   \<and> sh_totalFailed
        (getSystemHealth
           (run [Refresh ''email-queue''
                 (Some \<lparr>bs_waiting = 0, bs_active = 0, bs_completed = 5, bs_failed = 11,
                        bs_delayed = 0, bs_paused = False\<rparr>) 1000,
               Refresh ''image-processing-queue'' None 1100,
               Emit ''image-processing-queue''
                 (Waiting \<lparr>job_id = Some ''1'', job_name = Some ''resize'',
                          job_processedOn = None, job_timestamp = Some 1500\<rparr>) 2000]) 3000) = NaN
   \<and> sh_status
        (getSystemHealth
           (run [Refresh ''email-queue''
                 (Some \<lparr>bs_waiting = 0, bs_active = 0, bs_completed = 5, bs_failed = 11,
                        bs_delayed = 0, bs_paused = False\<rparr>) 1000,
               Refresh ''image-processing-queue'' None 1100,
               Emit ''image-processing-queue''
                 (Waiting \<lparr>job_id = Some ''1'', job_name = Some ''resize'',
                          job_processedOn = None, job_timestamp = Some 1500\<rparr>) 2000]) 3000) = ''healthy''"
  by (simp add: run_def init_monitoringData_def updateQueueStatus_def addMonitoringEvent_def
        getSystemHealth_def status_prop_def Let_def)

section \<open>The system-wide rollup\<close>

lemma foldl_js_add2_Num:
  "foldl (\<lambda>sum x. js_add (js_add sum (Num (f x))) (Num (g x))) (Num a) xs
     = Num (a + sum_list (map (\<lambda>x. f x + g x) xs))"
  by (induction xs arbitrary: a) (simp_all add: add.assoc)

text \<open>
  A rollup over per-queue metrics only (the first tick, before the key \<open>system\<close>
  exists): \<open>totalJobs\<close> is the sum of \<open>completed + failed\<close> and the average is the
  arithmetic mean of the per-queue averages, \<open>0\<close> when there is no entry.
\<close>

lemma rollup_over_queue_metrics:
  assumes "list_all (\<lambda>m. queue_metrics m \<noteq> None) (map snd (performance s))"
  shows "getPerformanceMetrics (startPerformanceMonitoring s now) ''system''
           = Some \<lparr>pm_completed = None, pm_failed = None,
                   pm_avgProcessingTime =
                     Some (Num (mean (map (\<lambda>m. snd (snd (the (queue_metrics m))))
                                          (map snd (performance s))))),
                   pm_totalProcessingTime = None, pm_jobCount = None,
                   pm_totalJobs =
                     Some (Num (sum_list (map (\<lambda>m. fst (the (queue_metrics m))
                                                    + fst (snd (the (queue_metrics m))))
                                              (map snd (performance s))))),
                   pm_timestamp = Some now\<rparr>"
proof -
  let ?ms = "map snd (performance s)"
  have shape: "\<And>m. m \<in> set ?ms \<Longrightarrow>
      toNumber (pm_completed m) = Num (fst (the (queue_metrics m)))
      \<and> toNumber (pm_failed m) = Num (fst (snd (the (queue_metrics m))))
      \<and> toNumber (pm_avgProcessingTime m) = Num (snd (snd (the (queue_metrics m))))"
    using assms
    by (auto simp: list_all_iff split: option.splits jsnum.splits)
  have total: "foldl (\<lambda>sum metrics. js_add (js_add sum (toNumber (pm_completed metrics)))
                                  (toNumber (pm_failed metrics))) (Num 0) ?ms
          = Num (sum_list (map (\<lambda>m. fst (the (queue_metrics m))
                                       + fst (snd (the (queue_metrics m)))) ?ms))"
  proof -
    have "foldl (\<lambda>sum metrics. js_add (js_add sum (toNumber (pm_completed metrics)))
                                  (toNumber (pm_failed metrics))) (Num 0) ?ms
          = foldl (\<lambda>sum m. js_add (js_add sum (Num (fst (the (queue_metrics m)))))
                                  (Num (fst (snd (the (queue_metrics m)))))) (Num 0) ?ms"
      by (intro foldl_cong refl) (simp add: shape)
    then show ?thesis by (simp only: foldl_js_add2_Num) simp
  qed
  have avg: "foldl (\<lambda>sum metrics. js_add sum (toNumber (pm_avgProcessingTime metrics)))
               (Num 0) ?ms
          = Num (sum_list (map (\<lambda>m. snd (snd (the (queue_metrics m)))) ?ms))"
  proof -
    have "foldl (\<lambda>sum metrics. js_add sum (toNumber (pm_avgProcessingTime metrics)))
               (Num 0) ?ms
          = foldl (\<lambda>sum m. js_add sum (Num (snd (snd (the (queue_metrics m)))))) (Num 0) ?ms"
      by (intro foldl_cong refl) (simp add: shape)
    then show ?thesis by (simp only: foldl_js_add_Num) simp
  qed
  have or0: "js_or0 (js_div (Num (sum_list (map (\<lambda>m. snd (snd (the (queue_metrics m)))) ?ms)))
                            (Num (of_nat (length (map fst (performance s))))))
          = Num (mean (map (\<lambda>m. snd (snd (the (queue_metrics m)))) ?ms))"
    by (cases "performance s = []") (simp_all add: mean_def)
  show ?thesis
    unfolding getPerformanceMetrics_def startPerformanceMonitoring_def Let_def
    by (simp only: total avg or0) (simp add: update_conv')
qed

text \<open>
  Claim C6, evaluated where the code departs from it. The first rollup runs with no
  metrics, then \<open>email-queue\<close> completes one job in 100 ms, then the rollup runs again.
  The second rollup reads the entry \<open>system\<close> of the first one as if it were the
  metrics of a queue: \<open>totalJobs\<close> is \<open>NaN\<close>, not 1, and the average is 50, the mean
  of 0 and 100, not 100.
\<close>

theorem rollup_reads_its_own_entry:
  "map fst (performance
      (run [PerformanceTick 60000,
            Emit ''email-queue''
              (Completed \<lparr>job_id = Some ''1'', job_name = Some ''send'',
                           job_processedOn = Some 61100, job_timestamp = Some 61000\<rparr>) 61200,
            PerformanceTick 120000]))
     = [''system'', ''email-queue'']
   \<and> getPerformanceMetrics
        (run [PerformanceTick 60000,
              Emit ''email-queue''
                (Completed \<lparr>job_id = Some ''1'', job_name = Some ''send'',
                             job_processedOn = Some 61100, job_timestamp = Some 61000\<rparr>) 61200])
        ''email-queue''
       = Some \<lparr>pm_completed = Some (Num 1), pm_failed = Some (Num 0),
               pm_avgProcessingTime = Some (Num 100), pm_totalProcessingTime = Some (Num 100),
               pm_jobCount = Some (Num 1), pm_totalJobs = None, pm_timestamp = None\<rparr>
   \<and> getPerformanceMetrics
        (run [PerformanceTick 60000,
              Emit ''email-queue''
                (Completed \<lparr>job_id = Some ''1'', job_name = Some ''send'',
                             job_processedOn = Some 61100, job_timestamp = Some 61000\<rparr>) 61200,
              PerformanceTick 120000])
        ''system''
       = Some \<lparr>pm_completed = None, pm_failed = None,
               pm_avgProcessingTime = Some (Num 50), pm_totalProcessingTime = None,
               pm_jobCount = None, pm_totalJobs = Some NaN, pm_timestamp = Some 120000\<rparr>"
  by (simp add: run_def init_monitoringData_def startPerformanceMonitoring_def
        updatePerformanceMetrics_def addMonitoringEvent_def getPerformanceMetrics_def
        new_metrics_def js_inc_def Let_def)

section \<open>The periodic performance pass\<close>

lemma foldl_push_bounded_lists:
  assumes "\<And>s x. g (f s x) = (if h x = [] then g s else last_n n (g s @ h x))"
  shows "g (foldl f s xs)
           = (if concat (map h xs) = [] then g s else last_n n (g s @ concat (map h xs)))"
proof (induction xs rule: rev_induct)
  case Nil
  show ?case by simp
next
  case (snoc x xs)
  show ?case
  proof (cases "concat (map h xs) = []")
    case True
    then have "g (foldl f s xs) = g s" using snoc by auto
    then show ?thesis using True by (simp add: assms del: concat_eq_Nil_conv)
  next
    case False
    then have "g (foldl f s xs) = last_n n (g s @ concat (map h xs))"
      using snoc by auto
    then have "g (foldl f s (xs @ [x]))
                 = (if h x = [] then last_n n (g s @ concat (map h xs))
                    else last_n n (last_n n (g s @ concat (map h xs)) @ h x))"
      by (simp add: assms)
    also have "\<dots> = last_n n (g s @ concat (map h xs) @ h x)"
      using last_n_last_n_append [of n "g s @ concat (map h xs)" "h x"] by simp
    finally show ?thesis using False by auto
  qed
qed

lemma alerts_checkPerformanceAlerts_entry:
  "alerts (checkPerformanceAlerts_entry now s entry)
     = (if perf_alerts_of now entry = [] then alerts s
        else last_n 50 (alerts s @ perf_alerts_of now entry))"
proof -
  obtain queueName metrics where e: "entry = (queueName, metrics)" by (cases entry) auto
  have two: "\<And>a b. last_n 50 (last_n 50 (alerts s @ [a]) @ [b]) = last_n 50 (alerts s @ [a, b])"
    using last_n_last_n_append [of 50 "alerts s @ [_]" "[_]"] by simp
  show ?thesis
    by (simp add: e checkPerformanceAlerts_entry_def perf_alerts_of_def Let_def
          alerts_checkForAlerts alert_of_def two)
qed

lemma alerts_checkPerformanceAlerts:
  "alerts (checkPerformanceAlerts s now)
     = (if concat (map (perf_alerts_of now) (performance s)) = [] then alerts s
        else last_n 50 (alerts s @ concat (map (perf_alerts_of now) (performance s))))"
  unfolding checkPerformanceAlerts_def
  by (rule foldl_push_bounded_lists) (rule alerts_checkPerformanceAlerts_entry)

text \<open>
  In a run that emits no event for a queue named \<open>system\<close> (none of the seven
  monitored queues is), every entry of \<open>performance\<close> other than the one of the
  rollup has \<open>completed + failed > 0\<close>: the metrics of a queue are created by its
  first \<open>completed\<close> or \<open>failed\<close> event, which counts.
\<close>

lemma counted_updatePerformanceMetrics:
  assumes "list_all counted_entry (performance s)" and "queueName \<noteq> ''system''"
    and "event = ''completed'' \<or> event = ''failed''"
  shows "list_all counted_entry (performance (updatePerformanceMetrics s queueName event job))"
proof -
  have old: "counted_entry (queueName, m)" if "map_of (performance s) queueName = Some m" for m
    using that assms(1) by (auto simp: list_all_iff dest: map_of_SomeD)
  show ?thesis
  proof (cases "map_of (performance s) queueName")
    case None
    then show ?thesis
      using assms
      by (auto simp: updatePerformanceMetrics_def Let_def new_metrics_def js_inc_def
            counted_entry_def intro!: list_all_update)
  next
    case (Some m)
    have cm: "nonneg_num (pm_completed m)" "nonneg_num (pm_failed m)"
        "js_gt (js_add (toNumber (pm_completed m)) (toNumber (pm_failed m))) (Num 0)"
      using old [OF Some] assms(2) by (simp_all add: counted_entry_def)
    from cm(1) obtain c where c: "pm_completed m = Some (Num c)" "0 \<le> c"
      by (auto elim: nonneg_num.elims)
    from cm(2) obtain f where f: "pm_failed m = Some (Num f)" "0 \<le> f"
      by (auto elim: nonneg_num.elims)
    have cf: "0 < c + f" using cm(3) c f by simp
    note cf = c f cf
    have "counted_entry (queueName,
            (if event = ''completed'' then
               (let m1 = m\<lparr>pm_completed := js_inc (pm_completed m)\<rparr> in
                if truthy (job_processedOn job) \<and> truthy (job_timestamp job) then
                  (let processingTime = js_sub_int (job_processedOn job) (job_timestamp job);
                       m2 = m1\<lparr>pm_totalProcessingTime :=
                                 Some (js_add (toNumber (pm_totalProcessingTime m1)) processingTime)\<rparr>;
                       m3 = m2\<lparr>pm_jobCount := js_inc (pm_jobCount m2)\<rparr>
                   in m3\<lparr>pm_avgProcessingTime :=
                           Some (js_div (toNumber (pm_totalProcessingTime m3))
                                        (toNumber (pm_jobCount m3)))\<rparr>)
                else m1)
             else if event = ''failed'' then m\<lparr>pm_failed := js_inc (pm_failed m)\<rparr>
             else m))"
      using cf assms(2) by (simp add: counted_entry_def Let_def js_inc_def)
    then show ?thesis
      using assms(1) Some
      by (simp add: updatePerformanceMetrics_def Let_def list_all_update)
  qed
qed

lemma counted_step:
  assumes "list_all counted_entry (performance s)" and "\<not> emits_system op"
  shows "list_all counted_entry (performance (step s op))"
proof (cases op)
  case (Emit queueName e now)
  then have q: "queueName \<noteq> ''system''" using assms(2) by simp
  show ?thesis
  proof (cases e)
    case (Completed job)
    have "list_all counted_entry
            (performance (updatePerformanceMetrics
               (addMonitoringEvent s queueName ''completed'' (Some job) None now)
               queueName ''completed'' job))"
      by (rule counted_updatePerformanceMetrics) (simp_all add: assms(1) q)
    then show ?thesis by (simp add: Emit Completed)
  next
    case (Failed job err)
    have "list_all counted_entry
            (performance (updatePerformanceMetrics
               (addMonitoringEvent s queueName ''failed'' (Some job) err now)
               queueName ''failed'' job))"
      by (rule counted_updatePerformanceMetrics) (simp_all add: assms(1) q)
    then show ?thesis by (simp add: Emit Failed)
  qed (simp_all add: Emit assms(1))
next
  case (PerformanceTick now)
  then show ?thesis
    using assms(1)
    by (auto simp: startPerformanceMonitoring_def Let_def counted_entry_def
          intro!: list_all_update)
qed (simp_all add: assms(1) clearAlerts_def)

lemma counted_run:
  assumes "list_all (\<lambda>op. \<not> emits_system op) ops"
  shows "list_all counted_entry (performance (run ops))"
  using assms
proof (induction ops rule: rev_induct)
  case Nil
  show ?case by (simp add: run_Nil init_monitoringData_def)
next
  case (snoc op ops)
  then show ?case by (simp add: run_snoc counted_step)
qed

text \<open>
  For an entry with numeric \<open>completed = c\<close>, \<open>failed = f\<close> and
  \<open>avgProcessingTime = a\<close> the pass raises a \<open>slow-processing\<close> alert exactly when
  \<open>a > 30000\<close> and then a \<open>high-failure-rate\<close> alert exactly when \<open>c + f > 0\<close>
  and \<open>f / (c + f) > 0.2\<close>; both have severity \<open>warning\<close>.
\<close>

lemma perf_alerts_of_numeric:
  "perf_alerts_of now
     (queueName, metrics\<lparr>pm_completed := Some (Num c), pm_failed := Some (Num f),
                          pm_avgProcessingTime := Some (Num a)\<rparr>)
     = (if a > 30000
        then [\<lparr>al_queueName = queueName, al_event = ''slow-processing'',
                al_error = Some (SlowProcessing (Num a)),
                al_timestamp = now, al_severity = ''warning''\<rparr>]
        else [])
       @ (if c + f > 0 \<and> f / (c + f) > 1 / 5
          then [\<lparr>al_queueName = queueName, al_event = ''high-failure-rate'',
                  al_error = Some (HighFailureRate (Num f) (Num (c + f))),
                  al_timestamp = now, al_severity = ''warning''\<rparr>]
          else [])"
  by (auto simp: perf_alerts_of_def alert_of_def severity_of_def)

text \<open>
  Claim C7, evaluated where the code departs from it. \<open>email-queue\<close> completes one
  job in 40 seconds, the rollup writes the entry \<open>system\<close> into \<open>performance\<close>, and
  the next alert tick appends a \<open>slow-processing\<close> alert for \<open>email-queue\<close> and
  one for \<open>system\<close>, an entry that is not a queue and has neither a \<open>completed\<close>
  nor a \<open>failed\<close> count.
\<close>

theorem checkPerformanceAlerts_alerts_system_entry:
  "map (\<lambda>a. (al_queueName a, al_event a))
     (alerts (run [Emit ''email-queue''
                     (Completed \<lparr>job_id = Some ''1'', job_name = Some ''send'',
                                  job_processedOn = Some 41000, job_timestamp = Some 1000\<rparr>)
                     41001,
                   PerformanceTick 60000,
                   AlertTick 70000]))
     = [(''email-queue'', ''slow-processing''), (''system'', ''slow-processing'')]
   \<and> map_option (\<lambda>m. (pm_completed m, pm_failed m))
        (getPerformanceMetrics
           (run [Emit ''email-queue''
                   (Completed \<lparr>job_id = Some ''1'', job_name = Some ''send'',
                                job_processedOn = Some 41000, job_timestamp = Some 1000\<rparr>)
                   41001,
                 PerformanceTick 60000,
                 AlertTick 70000])
           ''system'')
       = Some (None, None)"
  by (simp add: run_def init_monitoringData_def startPerformanceMonitoring_def
        updatePerformanceMetrics_def addMonitoringEvent_def getPerformanceMetrics_def
        new_metrics_def js_inc_def Let_def startAlertSystem_def checkQueueHealth_def
        checkQueueHealth_entry_def checkPerformanceAlerts_def checkPerformanceAlerts_entry_def
        checkForAlerts_def severity_of_def)

section \<open>The events query\<close>

lemma js_slice_prefix:
  "0 \<le> n \<Longrightarrow> js_slice xs 0 (Some n) = take (nat n) xs"
  by (simp add: js_slice_def Let_def min_def)

lemma newest_first_sort_key:
  "newest_first (sort_key (\<lambda>event. - ev_timestamp event) es)"
proof -
  have "sorted (map (\<lambda>event. - ev_timestamp event) (sort_key (\<lambda>event. - ev_timestamp event) es))"
    by (rule sorted_sort_key)
  then show ?thesis
    by (simp add: newest_first_def sorted_map)
qed

lemma newest_first_take: "newest_first es \<Longrightarrow> newest_first (take n es)"
  by (simp add: newest_first_def sorted_wrt_take)

text \<open>
  Claim C9, as the code has it. With a queue name and a limit of at least 1, the query
  returns the last \<open>limit\<close> events of the log of that queue in insertion order, oldest
  first, and the length of the log as total. Without a queue name (or with the empty
  one) and a limit of at least 0, it returns the first \<open>limit\<close> events of the stable
  sort of the events of all queues by descending timestamp, so at most \<open>limit\<close>
  events, newest first, and the number of all events as total.
\<close>

theorem events_route_slices:
  "(1 \<le> limit \<and> queueName \<noteq> [] \<longrightarrow>
      events_route s (Some queueName) (Some limit)
        = (last_n (nat limit) (event_log s queueName), length (event_log s queueName))
      \<and> length (fst (events_route s (Some queueName) (Some limit))) \<le> nat limit)
   \<and> (0 \<le> limit \<longrightarrow>
        events_route s None (Some limit)
          = (take (nat limit) (sort_key (\<lambda>event. - ev_timestamp event) (all_events s)),
             length (all_events s))
        \<and> events_route s (Some []) (Some limit) = events_route s None (Some limit)
        \<and> newest_first (fst (events_route s None (Some limit)))
        \<and> length (fst (events_route s None (Some limit))) \<le> nat limit)"
proof -
  have a: "events_route s (Some queueName) (Some limit)
        = (last_n (nat limit) (event_log s queueName), length (event_log s queueName))"
    if "1 \<le> limit" "queueName \<noteq> []"
    using that js_slice_negative [of limit "event_log s queueName"]
    by (simp add: events_route_def Let_def event_log_def)
  have b: "events_route s None (Some limit)
          = (take (nat limit) (sort_key (\<lambda>event. - ev_timestamp event) (all_events s)),
             length (all_events s))"
    and c: "events_route s (Some []) (Some limit) = events_route s None (Some limit)"
    if "0 \<le> limit"
    using that
    by (simp_all add: events_route_def Let_def all_events_def js_slice_prefix)
  show ?thesis
    using a b c
    by (auto simp: length_last_n newest_first_take newest_first_sort_key)
qed

theorem events_route_slices_witness:
  "(1::int) \<le> 2 \<and> ''email-queue'' \<noteq> []
   \<and> map ev_timestamp
        (fst (events_route
                (run [Emit ''email-queue'' (BackendError None) 1000,
                      Emit ''priority-queue'' (BackendError None) 2000,
                      Emit ''email-queue'' (BackendError None) 3000,
                      Emit ''email-queue'' (BackendError None) 4000])
                (Some ''email-queue'') (Some 2)))
       = [3000, 4000]
   \<and> map (\<lambda>e. (ev_queueName e, ev_timestamp e))
        (fst (events_route
                (run [Emit ''email-queue'' (BackendError None) 1000,
                      Emit ''priority-queue'' (BackendError None) 2000,
                      Emit ''email-queue'' (BackendError None) 3000,
                      Emit ''email-queue'' (BackendError None) 4000])
                None (Some 2)))
       = [(''email-queue'', 4000), (''email-queue'', 3000)]"
proof -
  let ?s = "run [Emit ''email-queue'' (BackendError None) 1000,
                 Emit ''priority-queue'' (BackendError None) 2000,
                 Emit ''email-queue'' (BackendError None) 3000,
                 Emit ''email-queue'' (BackendError None) 4000]"
  have q: "queues ?s
     = [(''email-queue'',
         \<lparr>qs_counts = None,
          qs_events = Some [event_of ''email-queue'' ''error'' None None 1000,
                            event_of ''email-queue'' ''error'' None None 3000,
                            event_of ''email-queue'' ''error'' None None 4000]\<rparr>),
        (''priority-queue'',
         \<lparr>qs_counts = None,
          qs_events = Some [event_of ''priority-queue'' ''error'' None None 2000]\<rparr>)]"
    by (simp add: run_def init_monitoringData_def queues_addMonitoringEvent
          status_or_empty_def event_log_def last_n_def)
  have log: "event_log ?s ''email-queue''
     = [event_of ''email-queue'' ''error'' None None 1000,
        event_of ''email-queue'' ''error'' None None 3000,
        event_of ''email-queue'' ''error'' None None 4000]"
    by (simp add: event_log_def q)
  have all: "all_events ?s
     = [event_of ''email-queue'' ''error'' None None 1000,
        event_of ''email-queue'' ''error'' None None 3000,
        event_of ''email-queue'' ''error'' None None 4000,
        event_of ''priority-queue'' ''error'' None None 2000]"
    by (simp add: all_events_def q event_of_def)
  show ?thesis
    using events_route_slices [where s = ?s and limit = 2 and queueName = "''email-queue''"]
    by (simp add: log all last_n_def event_of_def)
qed

text \<open>
  Claim C9 as stated fails when a queue is named: two events of \<open>email-queue\<close> come
  back oldest first.
\<close>

theorem events_route_queue_oldest_first:
  "map ev_timestamp
     (fst (events_route
             (run [Emit ''email-queue'' (BackendError None) 1000,
                   Emit ''email-queue'' (BackendError None) 2000])
             (Some ''email-queue'') (Some 100)))
     = [1000, 2000]
   \<and> \<not> newest_first
         (fst (events_route
                 (run [Emit ''email-queue'' (BackendError None) 1000,
                       Emit ''email-queue'' (BackendError None) 2000])
                 (Some ''email-queue'') (Some 100)))"
  by (simp add: run_def init_monitoringData_def addMonitoringEvent_def events_route_def
        js_slice_def Let_def newest_first_def)

section \<open>Removing a recurring job\<close>

lemma find_filter_other_key:
  assumes "distinct (map rj_name jobs)" and "find (\<lambda>j. rj_name j = name) jobs = Some job"
  shows "find (\<lambda>j. rj_name j = name) (filter (\<lambda>j. rj_key j \<noteq> rj_key job) jobs) = None"
proof -
  have "job \<in> set jobs" and n: "rj_name job = name"
    using assms(2) by (auto simp: find_Some_iff)
  have "j = job" if "j \<in> set jobs" "rj_name j = name" for j
    using that \<open>job \<in> set jobs\<close> n assms(1) by (auto simp: distinct_map inj_on_def)
  then show ?thesis
    by (auto simp: find_None_iff)
qed

lemma find_filter_same_name:
  assumes "find (\<lambda>j. rj_name j = name) jobs = Some job"
  shows "(find (\<lambda>j. rj_name j = name) (filter (\<lambda>j. rj_key j \<noteq> rj_key job) jobs) = None)
           = (\<forall>j \<in> set jobs. rj_name j = name \<longrightarrow> rj_key j = rj_key job)"
  by (auto simp: find_None_iff)

text \<open>
  Claim C8, as the code has it. With the backend available, \<open>removeRecurringJob\<close>
  reads the current list of repeatable jobs; if the list has an entry with exactly that
  name, it removes the first such entry by its key and returns \<open>true\<close>; if it has
  none, it returns \<open>false\<close>, raises nothing and leaves the backend as it is. After a
  removal that returned \<open>true\<close>, a second removal of the same name returns
  \<open>false\<close> when every entry of that name had the key of the removed one, in
  particular when the names of the list are unique; when another entry of that name
  had another key, the second removal finds it and returns \<open>true\<close> again.
\<close>

theorem removeRecurringJob_first_match:
  assumes "rq_available q"
  shows "(\<forall>job. find (\<lambda>j. rj_name j = name) (rq_repeatable q) = Some job \<longrightarrow>
            removeRecurringJob q name
              = Inr (True, q\<lparr>rq_repeatable :=
                               filter (\<lambda>j. rj_key j \<noteq> rj_key job) (rq_repeatable q)\<rparr>))
       \<and> ((\<forall>j \<in> set (rq_repeatable q). rj_name j \<noteq> name) \<longrightarrow>
            removeRecurringJob q name = Inr (False, q))
       \<and> (\<forall>job q'. find (\<lambda>j. rj_name j = name) (rq_repeatable q) = Some job
                    \<and> removeRecurringJob q name = Inr (True, q')
                    \<and> (\<forall>j \<in> set (rq_repeatable q). rj_name j = name \<longrightarrow> rj_key j = rj_key job)
                \<longrightarrow> removeRecurringJob q' name = Inr (False, q'))
       \<and> (\<forall>job q'. find (\<lambda>j. rj_name j = name) (rq_repeatable q) = Some job
                    \<and> removeRecurringJob q name = Inr (True, q')
                    \<and> (\<exists>j \<in> set (rq_repeatable q). rj_name j = name \<and> rj_key j \<noteq> rj_key job)
                \<longrightarrow> (\<exists>q''. removeRecurringJob q' name = Inr (True, q'')))
       \<and> (\<forall>q'. distinct (map rj_name (rq_repeatable q))
                \<and> removeRecurringJob q name = Inr (True, q') \<longrightarrow>
              removeRecurringJob q' name = Inr (False, q'))"
proof -
  have found: "removeRecurringJob q name
              = Inr (True, q\<lparr>rq_repeatable :=
                               filter (\<lambda>j. rj_key j \<noteq> rj_key job) (rq_repeatable q)\<rparr>)"
    if "find (\<lambda>j. rj_name j = name) (rq_repeatable q) = Some job" for job
    using that assms
    by (simp add: removeRecurringJob_def getRepeatableJobs_def removeRepeatableByKey_def)
  have missing: "removeRecurringJob q name = Inr (False, q)"
    if "\<forall>j \<in> set (rq_repeatable q). rj_name j \<noteq> name"
  proof -
    have "find (\<lambda>j. rj_name j = name) (rq_repeatable q) = None"
      using that by (simp add: find_None_iff)
    then show ?thesis
      using assms by (simp add: removeRecurringJob_def getRepeatableJobs_def)
  qed
  have only: "removeRecurringJob q' name = Inr (False, q')"
    if f: "find (\<lambda>j. rj_name j = name) (rq_repeatable q) = Some job"
      and r: "removeRecurringJob q name = Inr (True, q')"
      and u: "\<forall>j \<in> set (rq_repeatable q). rj_name j = name \<longrightarrow> rj_key j = rj_key job"
    for job q'
  proof -
    have q': "q' = q\<lparr>rq_repeatable :=
                            filter (\<lambda>j. rj_key j \<noteq> rj_key job) (rq_repeatable q)\<rparr>"
      using found [OF f] r by simp
    show ?thesis
      using find_filter_same_name [OF f] u assms
      by (simp add: q' removeRecurringJob_def getRepeatableJobs_def)
  qed
  have other: "\<exists>q''. removeRecurringJob q' name = Inr (True, q'')"
    if f: "find (\<lambda>j. rj_name j = name) (rq_repeatable q) = Some job"
      and r: "removeRecurringJob q name = Inr (True, q')"
      and u: "\<exists>j \<in> set (rq_repeatable q). rj_name j = name \<and> rj_key j \<noteq> rj_key job"
    for job q'
  proof -
    have q': "q' = q\<lparr>rq_repeatable :=
                            filter (\<lambda>j. rj_key j \<noteq> rj_key job) (rq_repeatable q)\<rparr>"
      using found [OF f] r by simp
    have "find (\<lambda>j. rj_name j = name)
            (filter (\<lambda>j. rj_key j \<noteq> rj_key job) (rq_repeatable q)) \<noteq> None"
      using find_filter_same_name [OF f] u by auto
    then obtain job' where
      "find (\<lambda>j. rj_name j = name)
         (filter (\<lambda>j. rj_key j \<noteq> rj_key job) (rq_repeatable q)) = Some job'"
      by auto
    then show ?thesis
      using assms
      by (simp add: q' removeRecurringJob_def getRepeatableJobs_def removeRepeatableByKey_def)
  qed
  have again: "removeRecurringJob q' name = Inr (False, q')"
    if d: "distinct (map rj_name (rq_repeatable q))"
      and r: "removeRecurringJob q name = Inr (True, q')" for q'
  proof (cases "find (\<lambda>j. rj_name j = name) (rq_repeatable q)")
    case None
    then show ?thesis
      using r assms by (simp add: removeRecurringJob_def getRepeatableJobs_def)
  next
    case (Some job)
    then have q': "q' = q\<lparr>rq_repeatable :=
                            filter (\<lambda>j. rj_key j \<noteq> rj_key job) (rq_repeatable q)\<rparr>"
      using found [OF Some] r by simp
    show ?thesis
      using find_filter_other_key [OF d Some] assms
      by (simp add: q' removeRecurringJob_def getRepeatableJobs_def)
  qed
  show ?thesis
    using found missing only other again by blast
qed

theorem removeRecurringJob_first_match_witness:
  "rq_available
     \<lparr>rq_repeatable =
        [\<lparr>rj_name = ''daily-cleanup'', rj_pattern = ''0 2 * * *'', rj_next = 7200000,
          rj_id = None, rj_key = ''daily-cleanup:::0 2 * * *''\<rparr>,
         \<lparr>rj_name = ''nightly'', rj_pattern = ''0 2 * * *'', rj_next = 7200000,
          rj_id = None, rj_key = ''nightly:::0 2 * * *''\<rparr>],
      rq_available = True\<rparr>
   \<and> removeRecurringJob
       \<lparr>rq_repeatable =
          [\<lparr>rj_name = ''daily-cleanup'', rj_pattern = ''0 2 * * *'', rj_next = 7200000,
            rj_id = None, rj_key = ''daily-cleanup:::0 2 * * *''\<rparr>,
           \<lparr>rj_name = ''nightly'', rj_pattern = ''0 2 * * *'', rj_next = 7200000,
            rj_id = None, rj_key = ''nightly:::0 2 * * *''\<rparr>],
        rq_available = True\<rparr> ''nightly''
     = Inr (True,
         \<lparr>rq_repeatable =
            [\<lparr>rj_name = ''daily-cleanup'', rj_pattern = ''0 2 * * *'', rj_next = 7200000,
              rj_id = None, rj_key = ''daily-cleanup:::0 2 * * *''\<rparr>],
          rq_available = True\<rparr>)
   \<and> removeRecurringJob
       \<lparr>rq_repeatable =
          [\<lparr>rj_name = ''daily-cleanup'', rj_pattern = ''0 2 * * *'', rj_next = 7200000,
            rj_id = None, rj_key = ''daily-cleanup:::0 2 * * *''\<rparr>],
        rq_available = True\<rparr> ''nightly''
     = Inr (False,
         \<lparr>rq_repeatable =
            [\<lparr>rj_name = ''daily-cleanup'', rj_pattern = ''0 2 * * *'', rj_next = 7200000,
              rj_id = None, rj_key = ''daily-cleanup:::0 2 * * *''\<rparr>],
          rq_available = True\<rparr>)
   \<and> (\<exists>q''. removeRecurringJob
               \<lparr>rq_repeatable =
                  [\<lparr>rj_name = ''nightly'', rj_pattern = ''0 3 * * *'', rj_next = 10800000,
                    rj_id = None, rj_key = ''nightly:::0 3 * * *''\<rparr>],
                rq_available = True\<rparr> ''nightly''
             = Inr (True, q''))"
proof -
  let ?q = "\<lparr>rq_repeatable =
        [\<lparr>rj_name = ''daily-cleanup'', rj_pattern = ''0 2 * * *'', rj_next = 7200000,
          rj_id = None, rj_key = ''daily-cleanup:::0 2 * * *''\<rparr>,
         \<lparr>rj_name = ''nightly'', rj_pattern = ''0 2 * * *'', rj_next = 7200000,
          rj_id = None, rj_key = ''nightly:::0 2 * * *''\<rparr>],
      rq_available = True\<rparr>"
  let ?d = "\<lparr>rq_repeatable =
        [\<lparr>rj_name = ''nightly'', rj_pattern = ''0 2 * * *'', rj_next = 7200000,
          rj_id = None, rj_key = ''nightly:::0 2 * * *''\<rparr>,
         \<lparr>rj_name = ''nightly'', rj_pattern = ''0 3 * * *'', rj_next = 10800000,
          rj_id = None, rj_key = ''nightly:::0 3 * * *''\<rparr>],
      rq_available = True\<rparr>"
  have h: "rq_available ?q" and hd: "rq_available ?d" by simp_all
  have f: "find (\<lambda>j. rj_name j = ''nightly'') (rq_repeatable ?q)
             = Some \<lparr>rj_name = ''nightly'', rj_pattern = ''0 2 * * *'', rj_next = 7200000,
                     rj_id = None, rj_key = ''nightly:::0 2 * * *''\<rparr>"
    and fd: "find (\<lambda>j. rj_name j = ''nightly'') (rq_repeatable ?d)
             = Some \<lparr>rj_name = ''nightly'', rj_pattern = ''0 2 * * *'', rj_next = 7200000,
                     rj_id = None, rj_key = ''nightly:::0 2 * * *''\<rparr>"
    by simp_all
  have first: "removeRecurringJob ?q ''nightly''
     = Inr (True,
         \<lparr>rq_repeatable =
            [\<lparr>rj_name = ''daily-cleanup'', rj_pattern = ''0 2 * * *'', rj_next = 7200000,
              rj_id = None, rj_key = ''daily-cleanup:::0 2 * * *''\<rparr>],
          rq_available = True\<rparr>)"
    using removeRecurringJob_first_match [OF h, of "''nightly''"] f by simp
  have firstd: "removeRecurringJob ?d ''nightly''
     = Inr (True,
         \<lparr>rq_repeatable =
            [\<lparr>rj_name = ''nightly'', rj_pattern = ''0 3 * * *'', rj_next = 10800000,
              rj_id = None, rj_key = ''nightly:::0 3 * * *''\<rparr>],
          rq_available = True\<rparr>)"
    using removeRecurringJob_first_match [OF hd, of "''nightly''"] fd by simp
  have u: "\<forall>j \<in> set (rq_repeatable ?q). rj_name j = ''nightly''
             \<longrightarrow> rj_key j = ''nightly:::0 2 * * *''"
    and o: "\<exists>j \<in> set (rq_repeatable ?d). rj_name j = ''nightly''
             \<and> rj_key j \<noteq> ''nightly:::0 2 * * *''"
    by simp_all
  have second: "removeRecurringJob
       \<lparr>rq_repeatable =
          [\<lparr>rj_name = ''daily-cleanup'', rj_pattern = ''0 2 * * *'', rj_next = 7200000,
            rj_id = None, rj_key = ''daily-cleanup:::0 2 * * *''\<rparr>],
        rq_available = True\<rparr> ''nightly''
     = Inr (False,
         \<lparr>rq_repeatable =
            [\<lparr>rj_name = ''daily-cleanup'', rj_pattern = ''0 2 * * *'', rj_next = 7200000,
              rj_id = None, rj_key = ''daily-cleanup:::0 2 * * *''\<rparr>],
          rq_available = True\<rparr>)"
    using removeRecurringJob_first_match [OF h, of "''nightly''"] f first u by simp
  have secondd: "\<exists>q''. removeRecurringJob
               \<lparr>rq_repeatable =
                  [\<lparr>rj_name = ''nightly'', rj_pattern = ''0 3 * * *'', rj_next = 10800000,
                    rj_id = None, rj_key = ''nightly:::0 3 * * *''\<rparr>],
                rq_available = True\<rparr> ''nightly''
             = Inr (True, q'')"
    using removeRecurringJob_first_match [OF hd, of "''nightly''"] fd firstd o by simp
  show ?thesis
    using h first second secondd by simp
qed

text \<open>
  Claim C8 as stated fails when a name is scheduled twice: with \<open>nightly\<close>
  registered under two cron patterns, the first removal returns \<open>true\<close> and so does
  the second.
\<close>

theorem removeRecurringJob_second_removal_true:
  "removeRecurringJob
     \<lparr>rq_repeatable =
        [\<lparr>rj_name = ''nightly'', rj_pattern = ''0 2 * * *'', rj_next = 7200000,
          rj_id = None, rj_key = ''nightly:::0 2 * * *''\<rparr>,
         \<lparr>rj_name = ''nightly'', rj_pattern = ''0 3 * * *'', rj_next = 10800000,
          rj_id = None, rj_key = ''nightly:::0 3 * * *''\<rparr>],
      rq_available = True\<rparr> ''nightly''
     = Inr (True,
         \<lparr>rq_repeatable =
            [\<lparr>rj_name = ''nightly'', rj_pattern = ''0 3 * * *'', rj_next = 10800000,
              rj_id = None, rj_key = ''nightly:::0 3 * * *''\<rparr>],
          rq_available = True\<rparr>)
   \<and> removeRecurringJob
       \<lparr>rq_repeatable =
          [\<lparr>rj_name = ''nightly'', rj_pattern = ''0 3 * * *'', rj_next = 10800000,
            rj_id = None, rj_key = ''nightly:::0 3 * * *''\<rparr>],
        rq_available = True\<rparr> ''nightly''
     = Inr (True, \<lparr>rq_repeatable = [], rq_available = True\<rparr>)"
  by (simp add: removeRecurringJob_def getRepeatableJobs_def removeRepeatableByKey_def)

end
